theory Spec2Isabelle
  imports Complex_Main "HOL-Library.Product_Lexorder"
begin

section \<open>Dates and times\<close>

text \<open>
  The collector works on Python \<open>datetime\<close> values: the six calendar fields, the
  microsecond, and the time zone, kept as its offset from UTC in seconds (\<open>None\<close> for
  a naive datetime). \<open>dt_key\<close> is the tuple of fields Python compares two datetimes
  of equal offset by.
\<close>

record datetime =
  year :: int
  month :: int
  day :: int
  hour :: int
  minute :: int
  second :: int
  microsecond :: int
  utcoffset :: "int option"

definition dt_key :: "datetime \<Rightarrow> int \<times> int \<times> int \<times> int \<times> int \<times> int \<times> int" where
  "dt_key d = (year d, month d, day d, hour d, minute d, second d, microsecond d)"

fun is_leap :: "int \<Rightarrow> bool" where
  "is_leap y = (y mod 4 = 0 \<and> (y mod 100 \<noteq> 0 \<or> y mod 400 = 0))"

fun days_in_month :: "int \<Rightarrow> int \<Rightarrow> int" where
  "days_in_month y m =
     (if m = 2 then (if is_leap y then 29 else 28)
      else if m = 4 \<or> m = 6 \<or> m = 9 \<or> m = 11 then 30 else 31)"

fun days_before_year :: "int \<Rightarrow> int" where
  "days_before_year y = (y - 1) * 365 + (y - 1) div 4 - (y - 1) div 100 + (y - 1) div 400"

fun days_before_month :: "int \<Rightarrow> int \<Rightarrow> int" where
  "days_before_month y m =
     (if m = 1 then 0 else if m = 2 then 31 else if m = 3 then 59 else if m = 4 then 90
      else if m = 5 then 120 else if m = 6 then 151 else if m = 7 then 181
      else if m = 8 then 212 else if m = 9 then 243 else if m = 10 then 273
      else if m = 11 then 304 else 334)
     + (if m > 2 \<and> is_leap y then 1 else 0)"

definition toordinal :: "datetime \<Rightarrow> int" where
  "toordinal d = days_before_year (year d) + days_before_month (year d) (month d) + day d"

text \<open>The range check of the \<open>datetime\<close> constructor (it raises \<open>ValueError\<close> outside).\<close>

fun valid_datetime :: "datetime \<Rightarrow> bool" where
  "valid_datetime d =
     (1 \<le> year d \<and> year d \<le> 9999 \<and> 1 \<le> month d \<and> month d \<le> 12 \<and>
      1 \<le> day d \<and> day d \<le> days_in_month (year d) (month d) \<and>
      0 \<le> hour d \<and> hour d \<le> 23 \<and> 0 \<le> minute d \<and> minute d \<le> 59 \<and>
      0 \<le> second d \<and> second d \<le> 59 \<and> 0 \<le> microsecond d \<and> microsecond d \<le> 999999)"

text \<open>
  \<open>(dt2 - dt1).total_seconds()\<close> for two naive datetimes without microseconds, which
  is what the only subtraction of the code (line 86) works on: both operands come from
  \<open>strptime\<close> with a format that has neither a fraction nor a zone.
\<close>

definition total_seconds :: "datetime \<Rightarrow> datetime \<Rightarrow> int" where
  "total_seconds dt2 dt1 =
     (toordinal dt2 - toordinal dt1) * 86400
     + ((second dt2 + minute dt2 * 60 + hour dt2 * 3600)
        - (second dt1 + minute dt1 * 60 + hour dt1 * 3600))"

text \<open>
  The instant of a datetime, in microseconds on the UTC time line: the local time less
  the offset. A naive datetime is read as UTC, as the collector itself does when it
  prints one with a literal \<open>Z\<close>.
\<close>

definition instant :: "datetime \<Rightarrow> int" where
  "instant d =
     ((toordinal d * 86400 + hour d * 3600 + minute d * 60 + second d) * 1000000
        + microsecond d)
     - (case utcoffset d of None \<Rightarrow> 0 | Some off \<Rightarrow> off * 1000000)"

subsection \<open>Exceptions\<close>

text \<open>
  Every exception the collector can raise is a value. \<open>InvalidFunctionArguments\<close>
  carries the function name and the offending argument (its message text is left out);
  \<open>RequestError\<close> and \<open>NullCandles\<close> carry the response. \<open>ValueError\<close> also stands
  for its subclass \<open>ParserError\<close> of the date parser.
\<close>

datatype arguments = ArgStr string | ArgInt int | ArgDates string "string option"

record candle =
  time :: string
  complete :: bool
  volume :: int

record response =
  ok :: bool
  body_text :: string
  json_candles :: "candle list option"

datatype exn =
    InvalidFunctionArguments string arguments
  | RequestError response string
  | NullCandles response
  | ValueError
  | TypeError
  | OverflowError
  | IndexError

subsection \<open>Comparing datetimes\<close>

text \<open>
  \<open>a >= b\<close> on two datetimes. With equal offsets (both naive, or the same zone)
  Python compares the field tuples; a naive datetime against an aware one raises
  \<open>TypeError\<close>; two aware datetimes of different offsets are compared as instants.
\<close>

definition datetime_ge :: "datetime \<Rightarrow> datetime \<Rightarrow> exn + bool" where
  "datetime_ge a b =
     (if utcoffset a = utcoffset b then Inr (dt_key a \<ge> dt_key b)
      else if utcoffset a = None \<or> utcoffset b = None then Inl TypeError
      else Inr (instant a \<ge> instant b))"

subsection \<open>The two \<open>strptime\<close> formats\<close>

text \<open>
  \<open>datetime.strptime\<close> for the formats \<open>%Y-%m-%d\<close> and \<open>%Y-%m-%dT%H:%M:%SZ\<close>.
  CPython turns the format into a regular expression (matched ignoring case, and the
  whole string must be consumed): the year is exactly four digits; every other field is
  one or two digits within the bounds of its directive, the day also a blank and one
  digit; the fields are then handed to the \<open>datetime\<close> constructor, with no
  microsecond and no zone. Any failure is a \<open>ValueError\<close>.
\<close>

definition is_digit :: "char \<Rightarrow> bool" where
  "is_digit c = (48 \<le> (of_char c :: int) \<and> (of_char c :: int) \<le> 57)"

definition digit_val :: "char \<Rightarrow> int" where
  "digit_val c = of_char c - 48"

definition num :: "string \<Rightarrow> int" where
  "num s = foldl (\<lambda>a c. 10 * a + digit_val c) 0 s"

fun split_at :: "(char \<Rightarrow> bool) \<Rightarrow> string \<Rightarrow> (string \<times> string) option" where
  "split_at sep [] = None"
| "split_at sep (c # cs) =
     (if sep c then Some ([], cs)
      else case split_at sep cs of None \<Rightarrow> None | Some (tok, rest) \<Rightarrow> Some (c # tok, rest))"

definition year_token :: "string \<Rightarrow> bool" where
  "year_token s = (length s = 4 \<and> list_all is_digit s)"

definition field_token :: "int \<Rightarrow> int \<Rightarrow> string \<Rightarrow> bool" where
  "field_token lo hi s =
     ((length s = 1 \<or> length s = 2) \<and> list_all is_digit s \<and> lo \<le> num s \<and> num s \<le> hi)"

definition day_token :: "string \<Rightarrow> bool" where
  "day_token s =
     (field_token 1 31 s \<or> (case s of [b, c] \<Rightarrow> b = CHR '' '' \<and> is_digit c \<and> c \<noteq> CHR ''0'' | _ \<Rightarrow> False))"

definition day_value :: "string \<Rightarrow> int" where
  "day_value s = (case s of [b, c] \<Rightarrow> (if b = CHR '' '' then digit_val c else num s) | _ \<Rightarrow> num s)"

definition make_datetime :: "int \<Rightarrow> int \<Rightarrow> int \<Rightarrow> int \<Rightarrow> int \<Rightarrow> int \<Rightarrow> exn + datetime" where
  "make_datetime y m d h mi s =
     (let r = \<lparr>year = y, month = m, day = d, hour = h, minute = mi, second = s,
                microsecond = 0, utcoffset = None\<rparr>
      in if valid_datetime r then Inr r else Inl ValueError)"

datatype date_format = DateOnly | DateTimeZ

definition strptime_date :: "string \<Rightarrow> exn + datetime" where
  "strptime_date s =
     (case split_at (\<lambda>c. c = CHR ''-'') s of None \<Rightarrow> Inl ValueError
      | Some (y, r1) \<Rightarrow>
     (case split_at (\<lambda>c. c = CHR ''-'') r1 of None \<Rightarrow> Inl ValueError
      | Some (m, d) \<Rightarrow>
        if year_token y \<and> field_token 1 12 m \<and> day_token d
        then make_datetime (num y) (num m) (day_value d) 0 0 0
        else Inl ValueError))"

definition strptime_datetime :: "string \<Rightarrow> exn + datetime" where
  "strptime_datetime s =
     (case split_at (\<lambda>c. c = CHR ''-'') s of None \<Rightarrow> Inl ValueError
      | Some (y, r1) \<Rightarrow>
     (case split_at (\<lambda>c. c = CHR ''-'') r1 of None \<Rightarrow> Inl ValueError
      | Some (m, r2) \<Rightarrow>
     (case split_at (\<lambda>c. c = CHR ''T'' \<or> c = CHR ''t'') r2 of None \<Rightarrow> Inl ValueError
      | Some (d, r3) \<Rightarrow>
     (case split_at (\<lambda>c. c = CHR '':'') r3 of None \<Rightarrow> Inl ValueError
      | Some (h, r4) \<Rightarrow>
     (case split_at (\<lambda>c. c = CHR '':'') r4 of None \<Rightarrow> Inl ValueError
      | Some (mi, r5) \<Rightarrow>
     (case split_at (\<lambda>c. c = CHR ''Z'' \<or> c = CHR ''z'') r5 of None \<Rightarrow> Inl ValueError
      | Some (sec, r6) \<Rightarrow>
        if r6 = [] \<and> year_token y \<and> field_token 1 12 m \<and> day_token d \<and>
           field_token 0 23 h \<and> field_token 0 59 mi \<and> field_token 0 61 sec
        then make_datetime (num y) (num m) (day_value d) (num h) (num mi) (num sec)
        else Inl ValueError))))))"

fun strptime :: "string \<Rightarrow> date_format \<Rightarrow> exn + datetime" where
  "strptime s DateOnly = strptime_date s"
| "strptime s DateTimeZ = strptime_datetime s"

subsection \<open>\<open>strftime\<close> with the format \<open>%Y-%m-%dT%H:%M:%SZ\<close>\<close>

definition digit_char :: "int \<Rightarrow> char" where
  "digit_char n = char_of (48 + n)"

definition pad2 :: "int \<Rightarrow> string" where
  "pad2 n = [digit_char (n div 10 mod 10), digit_char (n mod 10)]"

definition pad4 :: "int \<Rightarrow> string" where
  "pad4 n = [digit_char (n div 1000 mod 10), digit_char (n div 100 mod 10),
             digit_char (n div 10 mod 10), digit_char (n mod 10)]"

definition strftime :: "datetime \<Rightarrow> string" where
  "strftime d =
     pad4 (year d) @ ''-'' @ pad2 (month d) @ ''-'' @ pad2 (day d) @ ''T'' @
     pad2 (hour d) @ '':'' @ pad2 (minute d) @ '':'' @ pad2 (second d) @ ''Z''"

section \<open>GranularityCalendar: \<open>calculate_candles_between\<close>\<close>

fun granularity_minutes :: "string \<Rightarrow> int option" where
  "granularity_minutes g =
     (if g = ''M1'' then Some 1
      else if g = ''M5'' then Some 5
      else if g = ''M30'' then Some 30
      else if g = ''H1'' then Some 60
      else if g = ''H2'' then Some 120
      else if g = ''H4'' then Some 240
      else if g = ''D'' then Some 1440
      else if g = ''W'' then Some 10080
      else None)"

text \<open>
  \<open>int(x / 60)\<close> on the float \<open>x = total_seconds()\<close>. The float is a whole number of
  seconds below \<open>2^53\<close>, so it is exact; the correctly rounded quotient by 60 stays
  strictly between the neighbouring integers unless it is one, so truncating it gives
  the integer quotient rounded towards zero.
\<close>

definition int_div60 :: "int \<Rightarrow> int" where
  "int_div60 s = (if 0 \<le> s then s div 60 else - ((- s) div 60))"

definition calculate_candles_between :: "string \<Rightarrow> string \<Rightarrow> string \<Rightarrow> exn + int" where
  "calculate_candles_between from_date to_date granularity =
     (let date_format = (if CHR ''T'' \<in> set from_date then DateTimeZ else DateOnly) in
      case strptime from_date date_format of Inl e \<Rightarrow> Inl e
      | Inr dt1 \<Rightarrow>
     (case strptime to_date date_format of Inl e \<Rightarrow> Inl e
      | Inr dt2 \<Rightarrow>
       (case datetime_ge dt1 dt2 of Inl e \<Rightarrow> Inl e
        | Inr ge \<Rightarrow>
          if ge then Inl ValueError
          else (case granularity_minutes granularity of None \<Rightarrow> Inl ValueError
                | Some delta_minutes \<Rightarrow>
                    let total_minutes = int_div60 (total_seconds dt2 dt1);
                        candles_count = total_minutes div delta_minutes
                    in Inr candles_count))))"

section \<open>CandleFetcher: \<open>fetch_candles\<close>\<close>

text \<open>
  The collector object: the base URL, the instrument names (\<open>None\<close> when the account
  lists no instrument), and its two collaborators, \<open>dateutil\<close>'s \<open>parser.parse\<close> and
  the HTTP session. The parser is a parameter: it returns a datetime or raises. The
  session answers a request with a response and may depend on the requests sent before.
\<close>

datatype param_value = PStr string | PInt int | PNone

record request =
  url :: string
  params :: "(string \<times> param_value) list"

record data_collector =
  OANDA_URL :: string
  instruments :: "string list option"
  parser_parse :: "string \<Rightarrow> exn + datetime"
  session_get :: "request list \<Rightarrow> request \<Rightarrow> response"

text \<open>
  What a run does besides returning is recorded in a trace, oldest event first: every
  entry into \<open>fetch_candles\<close> with its arguments, every HTTP request sent, and every
  line printed.
\<close>

record fetch_call =
  c_pair_name :: string
  c_start :: string
  c_end :: "string option"
  c_granularity :: string
  c_count :: int
  c_price :: string
  c_use_count :: bool

datatype log_line =
    LogValueError
  | LogInvalidArguments exn
  | LogRequestFailed exn
  | LogNoCandles exn
  | LogProgress string int

datatype event = Call fetch_call | Get request | Print log_line

fun requests_of :: "event list \<Rightarrow> request list" where
  "requests_of [] = []"
| "requests_of (Get r # es) = r # requests_of es"
| "requests_of (_ # es) = requests_of es"

fun calls_of :: "event list \<Rightarrow> fetch_call list" where
  "calls_of [] = []"
| "calls_of (Call c # es) = c # calls_of es"
| "calls_of (_ # es) = calls_of es"

fun prints_of :: "event list \<Rightarrow> log_line list" where
  "prints_of [] = []"
| "prints_of (Print l # es) = l # prints_of es"
| "prints_of (_ # es) = prints_of es"

definition CANDLE_COUNT :: int where
  "CANDLE_COUNT = 4000"

definition granularity_list :: "string list" where
  "granularity_list = [''M5'', ''M1'', ''M30'', ''M15'', ''H1'', ''H4'', ''D'']"

definition price_list :: "string list" where
  "price_list = [''MBA'', ''B'', ''A'', ''M'']"

text \<open>
  Lines 121 to 129: both dates are parsed and printed back in the full format; only a
  \<open>TypeError\<close> of the parser is turned into \<open>InvalidFunctionArguments\<close>, any other
  exception of the parser leaves the function as it is.
\<close>

definition fetch_candles_dates ::
  "data_collector \<Rightarrow> string \<Rightarrow> string option \<Rightarrow> exn + (string \<times> string option)" where
  "fetch_candles_dates self start end_date =
     (case parser_parse self start of
        Inl e \<Rightarrow>
          if e = TypeError
          then Inl (InvalidFunctionArguments ''fetch_candles'' (ArgDates start end_date))
          else Inl e
      | Inr d1 \<Rightarrow>
          let start' = strftime d1 in
          (case end_date of
             None \<Rightarrow> Inr (start', None)
           | Some e2 \<Rightarrow>
               (case parser_parse self e2 of
                  Inl e \<Rightarrow>
                    if e = TypeError
                    then Inl (InvalidFunctionArguments ''fetch_candles'' (ArgDates start' end_date))
                    else Inl e
                | Inr d2 \<Rightarrow> Inr (start', Some (strftime d2)))))"

definition request_params ::
  "string \<Rightarrow> string \<Rightarrow> string \<Rightarrow> string option \<Rightarrow> int \<Rightarrow> bool \<Rightarrow> (string \<times> param_value) list" where
  "request_params granularity price start end_date count use_count =
     [(''granularity'', PStr granularity), (''price'', PStr price), (''from'', PStr start)]
     @ (if use_count \<and> end_date = None
        then [(''count'', PInt count)]
        else [(''to'', (case end_date of None \<Rightarrow> PNone | Some e \<Rightarrow> PStr e))])"

definition candles_request ::
  "data_collector \<Rightarrow> string \<Rightarrow> string \<Rightarrow> string \<Rightarrow> string \<Rightarrow> string option \<Rightarrow> int \<Rightarrow> bool
     \<Rightarrow> request" where
  "candles_request self pair_name granularity price start end_date count use_count =
     \<lparr>url = OANDA_URL self @ ''/instruments/'' @ pair_name @ ''/candles'',
      params = request_params granularity price start end_date count use_count\<rparr>"

definition call_record ::
  "string \<Rightarrow> string \<Rightarrow> string option \<Rightarrow> string \<Rightarrow> int \<Rightarrow> string \<Rightarrow> bool \<Rightarrow> fetch_call" where
  "call_record pair_name start end_date granularity count price use_count =
     \<lparr>c_pair_name = pair_name, c_start = start, c_end = end_date,
      c_granularity = granularity, c_count = count, c_price = price,
      c_use_count = use_count\<rparr>"

definition fetch_candles ::
  "data_collector \<Rightarrow> string \<Rightarrow> string \<Rightarrow> string option \<Rightarrow> string \<Rightarrow> int \<Rightarrow> string \<Rightarrow> bool
     \<Rightarrow> event list \<Rightarrow> (exn + candle list) \<times> event list" where
  "fetch_candles self pair_name start end_date granularity count price use_count tr0 =
     (let tr = tr0 @ [Call (call_record pair_name start end_date granularity count price use_count)]
      in case instruments self of
        None \<Rightarrow> (Inl TypeError, tr)
      | Some names \<Rightarrow>
        if pair_name \<notin> set names
        then (Inl (InvalidFunctionArguments ''fetch_candles'' (ArgStr pair_name)), tr)
        else if granularity \<notin> set granularity_list
        then (Inl (InvalidFunctionArguments ''fetch_candles'' (ArgStr granularity)), tr)
        else (case fetch_candles_dates self start end_date of
          Inl e \<Rightarrow> (Inl e, tr)
        | Inr (start', end') \<Rightarrow>
          if price \<notin> set price_list
          then (Inl (InvalidFunctionArguments ''fetch_candles'' (ArgStr price)), tr)
          else if \<not> (1 \<le> count \<and> count < CANDLE_COUNT + 1)
          then (Inl (InvalidFunctionArguments ''fetch_candles'' (ArgInt count)), tr)
          else
            let req = candles_request self pair_name granularity price start' end' count use_count;
                res = session_get self (requests_of tr) req;
                tr' = tr @ [Get req]
            in if \<not> ok res then (Inl (RequestError res (body_text res)), tr')
               else (case json_candles res of
                       None \<Rightarrow> (Inl (NullCandles res), tr')
                     | Some cs \<Rightarrow> (Inr cs, tr'))))"

section \<open>WindowedCollector: \<open>collect_large_candle_data\<close>\<close>

text \<open>
  The subroutine \<open>get_candles\<close>: one fetch by count from \<open>start_date\<close>; the three
  exceptions of the collector are printed and answered with \<open>None\<close>, any other exception
  passes through.
\<close>

definition get_candles ::
  "data_collector \<Rightarrow> string \<Rightarrow> string \<Rightarrow> string \<Rightarrow> int \<Rightarrow> datetime \<Rightarrow> event list
     \<Rightarrow> (exn + candle list option) \<times> event list" where
  "get_candles self pair granularity price p_count start_date tr =
     (case fetch_candles self pair (strftime start_date) None granularity p_count price True tr of
        (Inr cs, tr') \<Rightarrow> (Inr (Some cs), tr')
      | (Inl e, tr') \<Rightarrow>
          (case e of
             InvalidFunctionArguments f a \<Rightarrow> (Inr None, tr' @ [Print (LogInvalidArguments e)])
           | RequestError r m \<Rightarrow> (Inr None, tr' @ [Print (LogRequestFailed e)])
           | NullCandles r \<Rightarrow> (Inr None, tr' @ [Print (LogNoCandles e)])
           | _ \<Rightarrow> (Inl e, tr')))"

text \<open>
  The \<open>while\<close> loop of lines 237 to 245. One pass through its body either raises
  (\<open>candles.extend(None)\<close> is a \<open>TypeError\<close>, \<open>candles[-1]\<close> on an empty list an
  \<open>IndexError\<close>, the comparison of a naive cursor with an aware end date, or the
  other way round, a \<open>TypeError\<close>, and whatever \<open>get_candles\<close> or the parser let
  through), or leaves the
  loop by \<open>break\<close>, or reaches the end of the body with the new values of \<open>count\<close>,
  \<open>from_date\<close>, \<open>candles\<close> and \<open>progress\<close>.
\<close>

datatype loop_outcome =
    Raise exn "event list"
  | Break "candle list" "event list"
  | Next int datetime "candle list" int "event list"

definition collect_loop_body ::
  "data_collector \<Rightarrow> string \<Rightarrow> string \<Rightarrow> string \<Rightarrow> datetime \<Rightarrow> int \<Rightarrow> datetime
     \<Rightarrow> candle list \<Rightarrow> int \<Rightarrow> event list \<Rightarrow> loop_outcome" where
  "collect_loop_body self pair granularity price to_date count from_date candles progress tr =
     (let tr1 = tr @ [Print (LogProgress pair progress)];
          current_count = min count CANDLE_COUNT
      in case get_candles self pair granularity price current_count from_date tr1 of
           (Inl e, tr2) \<Rightarrow> Raise e tr2
         | (Inr None, tr2) \<Rightarrow> Raise TypeError tr2
         | (Inr (Some cs), tr2) \<Rightarrow>
             (let candles' = candles @ cs;
                  count' = count - current_count
              in if candles' = [] then Raise IndexError tr2
                 else (case parser_parse self (time (last candles')) of
                         Inl e \<Rightarrow> Raise e tr2
                       | Inr from_date' \<Rightarrow>
                           (let progress' = progress + int (length candles')
                            in case datetime_ge from_date' to_date of
                                 Inl e \<Rightarrow> Raise e tr2
                               | Inr ge \<Rightarrow>
                                   if ge then Break candles' tr2
                                   else Next count' from_date' candles' progress' tr2))))"

fun outcome_trace :: "loop_outcome \<Rightarrow> event list" where
  "outcome_trace (Raise e tr) = tr"
| "outcome_trace (Break cs tr) = tr"
| "outcome_trace (Next n d cs p tr) = tr"

text \<open>
  The loop itself is defined without any claim that it ends: a run that never left it
  would be \<open>None\<close>.
\<close>

partial_function (option) collect_loop ::
  "data_collector \<Rightarrow> string \<Rightarrow> string \<Rightarrow> string \<Rightarrow> datetime \<Rightarrow> int \<Rightarrow> datetime
     \<Rightarrow> candle list \<Rightarrow> int \<Rightarrow> event list \<Rightarrow> ((exn + candle list) \<times> event list) option" where
  "collect_loop self pair granularity price to_date count from_date candles progress tr =
     (if count > 0 then
        (case collect_loop_body self pair granularity price to_date count from_date candles
                progress tr of
           Raise e tr' \<Rightarrow> Some (Inl e, tr')
         | Break candles' tr' \<Rightarrow> Some (Inr candles', tr')
         | Next count' from_date' candles' progress' tr' \<Rightarrow>
             collect_loop self pair granularity price to_date count' from_date' candles'
               progress' tr')
      else Some (Inr candles, tr))"

declare collect_loop.simps [code]

text \<open>Lines 233 to 247: the run once the total count is known.\<close>

definition collect_from_count ::
  "data_collector \<Rightarrow> string \<Rightarrow> string \<Rightarrow> string \<Rightarrow> datetime \<Rightarrow> datetime \<Rightarrow> int \<Rightarrow> event list
     \<Rightarrow> ((exn + candle list option) \<times> event list) option" where
  "collect_from_count self pair granularity price from_date to_date count tr =
     (if count \<le> CANDLE_COUNT then
        (case get_candles self pair granularity price count from_date tr of
           (Inl e, tr') \<Rightarrow> Some (Inl e, tr')
         | (Inr None, tr') \<Rightarrow> Some (Inl TypeError, tr')
         | (Inr (Some cs), tr') \<Rightarrow> Some (Inr (Some ([] @ cs)), tr'))
      else
        (case collect_loop self pair granularity price to_date count from_date [] 0 tr of
           None \<Rightarrow> None
         | Some (Inl e, tr') \<Rightarrow> Some (Inl e, tr')
         | Some (Inr cs, tr') \<Rightarrow> Some (Inr (Some cs), tr')))"

text \<open>Lines 181 to 187: both dates are parsed; only a \<open>TypeError\<close> is converted.\<close>

definition collect_dates ::
  "data_collector \<Rightarrow> string \<Rightarrow> string \<Rightarrow> exn + (datetime \<times> datetime)" where
  "collect_dates self date_from date_to =
     (case parser_parse self date_from of
        Inl e \<Rightarrow>
          if e = TypeError
          then Inl (InvalidFunctionArguments ''collect_large_candle_data''
                      (ArgDates date_from (Some date_to)))
          else Inl e
      | Inr from_date \<Rightarrow>
          (case parser_parse self date_to of
             Inl e \<Rightarrow>
               if e = TypeError
               then Inl (InvalidFunctionArguments ''collect_large_candle_data''
                           (ArgDates date_from (Some date_to)))
               else Inl e
           | Inr to_date \<Rightarrow> Inr (from_date, to_date)))"

definition collect_large_candle_data ::
  "data_collector \<Rightarrow> string \<Rightarrow> string \<Rightarrow> string \<Rightarrow> string \<Rightarrow> string \<Rightarrow> event list
     \<Rightarrow> ((exn + candle list option) \<times> event list) option" where
  "collect_large_candle_data self pair granularity date_from date_to price tr =
     (case instruments self of
        None \<Rightarrow> Some (Inl TypeError, tr)
      | Some names \<Rightarrow>
        if pair \<notin> set names
        then Some (Inl (InvalidFunctionArguments ''collect_large_candle_data'' (ArgStr pair)), tr)
        else if granularity \<notin> set granularity_list
        then Some (Inl (InvalidFunctionArguments ''collect_large_candle_data''
                          (ArgStr granularity)), tr)
        else (case collect_dates self date_from date_to of
          Inl e \<Rightarrow> Some (Inl e, tr)
        | Inr (from_date, to_date) \<Rightarrow>
          if price \<notin> set price_list
          then Some (Inl (InvalidFunctionArguments ''collect_large_candle_data'' (ArgStr price)), tr)
          else (case calculate_candles_between (strftime from_date) (strftime to_date) granularity of
            Inl e \<Rightarrow>
              if e = ValueError then Some (Inr None, tr @ [Print LogValueError])
              else Some (Inl e, tr)
          | Inr n \<Rightarrow>
              collect_from_count self pair granularity price from_date to_date (n + 1) tr)))"

section \<open>Chronological order of a series\<close>

text \<open>
  The timestamp of a candle is what the parser reads from its \<open>time\<close> string. A series
  is ascending when every timestamp parses and the instants never decrease.
\<close>

fun candle_times :: "(string \<Rightarrow> exn + datetime) \<Rightarrow> candle list \<Rightarrow> datetime list option" where
  "candle_times p [] = Some []"
| "candle_times p (c # cs) =
     (case p (time c) of
        Inl e \<Rightarrow> None
      | Inr d \<Rightarrow> (case candle_times p cs of None \<Rightarrow> None | Some ds \<Rightarrow> Some (d # ds)))"

definition ascending :: "(string \<Rightarrow> exn + datetime) \<Rightarrow> candle list \<Rightarrow> bool" where
  "ascending p cs = (case candle_times p cs of None \<Rightarrow> False | Some ds \<Rightarrow> sorted (map instant ds))"

text \<open>
  Two sharper forms: an ascending series none of whose timestamps is before the anchor
  \<open>a\<close>, and an ascending series none of whose timestamps is after the cursor \<open>d\<close>.
\<close>

definition ascending_from :: "(string \<Rightarrow> exn + datetime) \<Rightarrow> datetime \<Rightarrow> candle list \<Rightarrow> bool" where
  "ascending_from p a cs =
     (case candle_times p cs of
        None \<Rightarrow> False
      | Some ds \<Rightarrow> sorted (map instant ds) \<and> list_all (\<lambda>d. instant a \<le> instant d) ds)"

definition ascending_upto :: "(string \<Rightarrow> exn + datetime) \<Rightarrow> candle list \<Rightarrow> datetime \<Rightarrow> bool" where
  "ascending_upto p cs d =
     (case candle_times p cs of
        None \<Rightarrow> False
      | Some ds \<Rightarrow> sorted (map instant ds) \<and> list_all (\<lambda>x. instant x \<le> instant d) ds)"

text \<open>
  A session is chronological when every successful response is an ascending candle
  list that does not start before the start anchor of its request, the anchor being
  what the parser reads from the request's \<open>from\<close> parameter.
\<close>

definition chronological :: "data_collector \<Rightarrow> bool" where
  "chronological self =
     (\<forall>sent req f a cs.
        map_of (params req) ''from'' = Some (PStr f) \<and> parser_parse self f = Inr a
        \<and> ok (session_get self sent req) \<and> json_candles (session_get self sent req) = Some cs
        \<longrightarrow> ascending_from (parser_parse self) a cs)"

text \<open>
  The collector moves its cursor to a timestamp by printing it with \<open>strftime\<close> and
  having \<open>fetch_candles\<close> parse and print it again. A timestamp string reads back when
  that neither changes the printed form nor moves the instant backwards: printing drops
  the microseconds and replaces the zone by \<open>Z\<close>, so a timestamp of whole seconds in
  UTC (or naive) reads back, and one with a fraction of a second or an offset west of
  UTC does not.
\<close>

definition reads_back :: "(string \<Rightarrow> exn + datetime) \<Rightarrow> string \<Rightarrow> bool" where
  "reads_back p s =
     (case p s of
        Inl e \<Rightarrow> True
      | Inr d \<Rightarrow>
          (case p (strftime d) of
             Inl e \<Rightarrow> False
           | Inr d' \<Rightarrow> strftime d' = strftime d \<and> instant d \<le> instant d'))"

definition timestamps_read_back :: "data_collector \<Rightarrow> bool" where
  "timestamps_read_back self =
     (\<forall>sent req cs.
        ok (session_get self sent req) \<and> json_candles (session_get self sent req) = Some cs
        \<longrightarrow> list_all (\<lambda>c. reads_back (parser_parse self) (time c)) cs)"

section \<open>Example collaborators\<close>

text \<open>
  A date parser for concrete runs. It reads a full ISO instant ending in \<open>Z\<close> as an
  aware datetime in UTC, an ISO date as a naive datetime at midnight, and raises
  \<open>ValueError\<close> on every other string. \<open>dateutil\<close> reads far more strings; on the ones
  used in the runs below (whole-second instants with \<open>Z\<close>, ISO dates, and
  \<open>not-a-date\<close>, which it rejects with \<open>ParserError\<close>) both agree.
\<close>

definition iso_parse :: "string \<Rightarrow> exn + datetime" where
  "iso_parse s =
     (if CHR ''T'' \<in> set s
      then (case strptime s DateTimeZ of
              Inl e \<Rightarrow> Inl e
            | Inr d \<Rightarrow> Inr (d\<lparr>utcoffset := Some 0\<rparr>))
      else strptime s DateOnly)"

text \<open>
  The same parser, reading also a fraction of six digits before the \<open>Z\<close> into the
  microsecond, as \<open>dateutil\<close> does.
\<close>

definition iso_parse_micro :: "string \<Rightarrow> exn + datetime" where
  "iso_parse_micro s =
     (case split_at (\<lambda>c. c = CHR ''.'') s of
        None \<Rightarrow> iso_parse s
      | Some (whole, tail) \<Rightarrow>
          if length tail = 7 \<and> list_all is_digit (butlast tail) \<and> last tail = CHR ''Z''
          then (case iso_parse (whole @ ''Z'') of
                  Inl e \<Rightarrow> Inl e
                | Inr d \<Rightarrow> Inr (d\<lparr>microsecond := num (butlast tail)\<rparr>))
          else Inl ValueError)"

definition naive :: "int \<Rightarrow> int \<Rightarrow> int \<Rightarrow> int \<Rightarrow> int \<Rightarrow> int \<Rightarrow> datetime" where
  "naive y m d h mi s =
     \<lparr>year = y, month = m, day = d, hour = h, minute = mi, second = s,
      microsecond = 0, utcoffset = None\<rparr>"

definition utc :: "int \<Rightarrow> int \<Rightarrow> int \<Rightarrow> int \<Rightarrow> int \<Rightarrow> int \<Rightarrow> datetime" where
  "utc y m d h mi s =
     \<lparr>year = y, month = m, day = d, hour = h, minute = mi, second = s,
      microsecond = 0, utcoffset = Some 0\<rparr>"

definition example_collector :: "(request list \<Rightarrow> request \<Rightarrow> response) \<Rightarrow> data_collector" where
  "example_collector transport =
     \<lparr>OANDA_URL = ''https://api-fxpractice.oanda.com/v3'',
      instruments = Some [''EUR_USD'', ''GBP_USD''],
      parser_parse = iso_parse,
      session_get = transport\<rparr>"

text \<open>A session whose every response is a failure.\<close>

definition failing_session :: "request list \<Rightarrow> request \<Rightarrow> response" where
  "failing_session sent req = \<lparr>ok = False, body_text = ''Service Unavailable'', json_candles = None\<rparr>"


text \<open>
  A session that answers every request with one candle stamped with the request's own
  start anchor (and with a failure when the request has none).
\<close>

definition anchor_session :: "request list \<Rightarrow> request \<Rightarrow> response" where
  "anchor_session sent req =
     (case map_of (params req) ''from'' of
        Some (PStr f) \<Rightarrow>
          \<lparr>ok = True, body_text = ''{candles}'',
           json_candles = Some [\<lparr>time = f, complete = True, volume = 1\<rparr>]\<rparr>
      | _ \<Rightarrow> \<lparr>ok = False, body_text = ''Bad Request'', json_candles = None\<rparr>)"

text \<open>A session that answers every request with a present but empty candle list.\<close>

definition empty_series_session :: "request list \<Rightarrow> request \<Rightarrow> response" where
  "empty_series_session sent req = \<lparr>ok = True, body_text = ''{candles}'', json_candles = Some []\<rparr>"

text \<open>A session whose responses succeed but carry no candle field.\<close>

definition no_candles_session :: "request list \<Rightarrow> request \<Rightarrow> response" where
  "no_candles_session sent req = \<lparr>ok = True, body_text = ''{}'', json_candles = None\<rparr>"

text \<open>
  A session with candles for one anchor only, midnight of 1 January 2020: its first
  response holds the candle stamped nine tenths of a second after the anchor, every
  later one the candle stamped one tenth of a second after it. Every response ascends
  and none starts before its anchor. The collector that uses it reads fractions.
\<close>

definition fraction_session :: "request list \<Rightarrow> request \<Rightarrow> response" where
  "fraction_session sent req =
     (if map_of (params req) ''from'' = Some (PStr ''2020-01-01T00:00:00Z'')
      then \<lparr>ok = True, body_text = ''{candles}'',
            json_candles = Some [\<lparr>time = (if sent = [] then ''2020-01-01T00:00:00.900000Z''
                                               else ''2020-01-01T00:00:00.100000Z''),
                                    complete = True, volume = 1\<rparr>]\<rparr>
      else \<lparr>ok = False, body_text = ''Bad Request'', json_candles = None\<rparr>)"

definition fraction_collector :: data_collector where
  "fraction_collector =
     \<lparr>OANDA_URL = ''https://api-fxpractice.oanda.com/v3'',
      instruments = Some [''EUR_USD'', ''GBP_USD''],
      parser_parse = iso_parse_micro,
      session_get = fraction_session\<rparr>"

section \<open>Calendar arithmetic\<close>


lemma days_before_month_next:
  assumes "1 \<le> m" "m \<le> 11"
  shows "days_before_month y (m + 1) = days_before_month y m + days_in_month y m"
proof -
  have "m = 1 \<or> m = 2 \<or> m = 3 \<or> m = 4 \<or> m = 5 \<or> m = 6 \<or> m = 7 \<or> m = 8 \<or> m = 9 \<or> m = 10 \<or> m = 11"
    using assms by presburger
  then show ?thesis by (elim disjE) simp_all
qed

lemma days_before_month_nonneg: "0 \<le> days_before_month y m"
  by simp

lemma days_before_month_le:
  assumes "1 \<le> m" "m \<le> m'" "m' \<le> 12"
  shows "days_before_month y m \<le> days_before_month y m'"
proof -
  have "m = 1 \<or> m = 2 \<or> m = 3 \<or> m = 4 \<or> m = 5 \<or> m = 6 \<or> m = 7 \<or> m = 8 \<or> m = 9 \<or> m = 10 \<or> m = 11 \<or> m = 12"
    using assms by presburger
  then show ?thesis using assms(2,3) by (elim disjE) simp_all
qed

lemma days_in_year_bound:
  assumes "1 \<le> m" "m \<le> 12"
  shows "days_before_month y m + days_in_month y m \<le> 365 + (if is_leap y then 1 else 0)"
proof -
  have "m = 1 \<or> m = 2 \<or> m = 3 \<or> m = 4 \<or> m = 5 \<or> m = 6 \<or> m = 7 \<or> m = 8 \<or> m = 9 \<or> m = 10 \<or> m = 11 \<or> m = 12"
    using assms by presburger
  then show ?thesis by (elim disjE) simp_all
qed

lemma div_succ:
  fixes a k :: int
  assumes "0 < k"
  shows "(a + 1) div k = a div k + (if (a + 1) mod k = 0 then 1 else 0)"
proof -
  define q r where "q = a div k" and "r = a mod k"
  have a: "a = r + k * q" by (simp add: q_def r_def)
  have r: "0 \<le> r" "r < k" using assms by (simp_all add: r_def)
  show ?thesis
  proof (cases "r + 1 = k")
    case True
    have "a + 1 = 0 + k * (q + 1)" using a True by (simp add: algebra_simps)
    then have "(a + 1) div k = q + 1 \<and> (a + 1) mod k = 0"
      using assms by (metis add.commute add_0 div_mult_self2 div_0 mod_mult_self2 mod_0 less_irrefl)
    then show ?thesis by (simp add: q_def)
  next
    case False
    then have lt: "r + 1 < k" using r by simp
    have "a + 1 = (r + 1) + k * q" using a by simp
    then have "(a + 1) div k = (r + 1) div k + q \<and> (a + 1) mod k = (r + 1) mod k"
      using assms by (metis add.commute div_mult_self2 mod_mult_self2 less_irrefl)
    moreover have "(r + 1) div k = 0" "(r + 1) mod k = r + 1" using lt r by simp_all
    ultimately show ?thesis using r by (simp add: q_def)
  qed
qed

lemma year_step_linear:
  fixes A B C :: int
  assumes "A = A' + a" "B = B' + b" "C = C' + c"
  shows "y * 365 + A - B + C = (y - 1) * 365 + A' - B' + C' + 365 + (a - b + c)"
  using assms by (simp add: algebra_simps)

lemma leap_indicator:
  assumes "q \<Longrightarrow> p" "r \<Longrightarrow> q"
  shows "(if p then 1 else 0) - (if q then 1 else 0) + (if r then 1 else 0)
         = (if p \<and> (\<not> q \<or> r) then 1 else (0::int))"
  using assms by auto

lemma days_before_year_next:
  "days_before_year (y + 1) = days_before_year y + 365 + (if is_leap y then 1 else 0)"
proof -
  have e4: "y div 4 = (y - 1) div 4 + (if y mod 4 = 0 then 1 else 0)"
    using div_succ [of 4 "y - 1"] by simp
  have e100: "y div 100 = (y - 1) div 100 + (if y mod 100 = 0 then 1 else 0)"
    using div_succ [of 100 "y - 1"] by simp
  have e400: "y div 400 = (y - 1) div 400 + (if y mod 400 = 0 then 1 else 0)"
    using div_succ [of 400 "y - 1"] by simp
  have d1: "y mod 4 = 0" if "y mod 100 = 0"
  proof -
    have "(4::int) dvd 100" by simp
    moreover have "100 dvd y" using that by (simp add: dvd_eq_mod_eq_0)
    ultimately have "4 dvd y" by (rule dvd_trans)
    then show ?thesis by (simp add: dvd_eq_mod_eq_0)
  qed
  have d2: "y mod 100 = 0" if "y mod 400 = 0"
  proof -
    have "(100::int) dvd 400" by simp
    moreover have "400 dvd y" using that by (simp add: dvd_eq_mod_eq_0)
    ultimately have "100 dvd y" by (rule dvd_trans)
    then show ?thesis by (simp add: dvd_eq_mod_eq_0)
  qed
  have s: "y + 1 - 1 = y" by simp
  show ?thesis
    unfolding days_before_year.simps is_leap.simps s
    by (simp only: year_step_linear [OF e4 e100 e400] leap_indicator [OF d1 d2])
qed

lemma days_before_year_mono: "y \<le> y' \<Longrightarrow> days_before_year y \<le> days_before_year y'"
proof (induction y' rule: int_ge_induct)
  case base
  show ?case by (rule order_refl)
next
  case (step i)
  have "days_before_year i \<le> days_before_year (i + 1)"
    by (simp only: days_before_year_next split: if_split) simp
  with step.IH show ?case by (rule order_trans)
qed

declare days_before_year.simps [simp del] days_before_month.simps [simp del]
  days_in_month.simps [simp del] is_leap.simps [simp del]

text \<open>
  The ordinal of a valid date grows with the date, so the tuple order Python compares
  datetimes by agrees with the elapsed seconds it subtracts them to.
\<close>

lemma toordinal_mono:
  assumes a: "valid_datetime a" and b: "valid_datetime b"
    and lt: "(year a, month a, day a) < (year b, month b, day b)"
  shows "toordinal a < toordinal b"
proof -
  from a have ma: "1 \<le> month a" "month a \<le> 12" "day a \<le> days_in_month (year a) (month a)"
    by simp_all
  from b have mb: "1 \<le> month b" "month b \<le> 12" "1 \<le> day b"
    by simp_all
  consider (y) "year a < year b"
    | (m) "year a = year b" "month a < month b"
    | (d) "year a = year b" "month a = month b" "day a < day b"
    using lt by atomize_elim (auto simp: less_prod_def)
  then show ?thesis
  proof cases
    case y
    have "days_before_month (year a) (month a) + day a
          \<le> 365 + (if is_leap (year a) then 1 else 0)"
      using days_in_year_bound [OF ma(1,2), of "year a"] ma(3) by linarith
    then have "toordinal a \<le> days_before_year (year a + 1)"
      unfolding toordinal_def days_before_year_next by linarith
    also have "\<dots> \<le> days_before_year (year b)"
      using y by (intro days_before_year_mono) simp
    also have "\<dots> < toordinal b"
      unfolding toordinal_def
      using days_before_month_nonneg [of "year b" "month b"] mb(3) by linarith
    finally show ?thesis .
  next
    case m
    have "days_before_month (year a) (month a) + day a
          \<le> days_before_month (year a) (month a + 1)"
      using days_before_month_next [of "month a" "year a"] ma m(2) mb(2) by linarith
    also have "\<dots> \<le> days_before_month (year a) (month b)"
      using ma(1) m(2) mb(2) by (intro days_before_month_le) simp_all
    finally show ?thesis
      unfolding toordinal_def using m(1) mb(3) by simp
  next
    case d
    then show ?thesis unfolding toordinal_def by simp
  qed
qed

lemma total_seconds_pos:
  assumes a: "valid_datetime a" and b: "valid_datetime b"
    and us: "microsecond a = microsecond b" and lt: "dt_key a < dt_key b"
  shows "0 < total_seconds b a"
proof -
  define sa where "sa = second a + minute a * 60 + hour a * 3600"
  define sb where "sb = second b + minute b * 60 + hour b * 3600"
  from a have ra: "0 \<le> sa" "sa < 86400" by (simp_all add: sa_def)
  from b have rb: "0 \<le> sb" "sb < 86400" by (simp_all add: sb_def)
  have ts: "total_seconds b a = (toordinal b - toordinal a) * 86400 + (sb - sa)"
    by (simp add: total_seconds_def sa_def sb_def)
  consider (date) "(year a, month a, day a) < (year b, month b, day b)"
    | (tod) "year a = year b" "month a = month b" "day a = day b"
        "(hour a, minute a, second a) < (hour b, minute b, second b)"
    using lt us by atomize_elim (auto simp: dt_key_def less_prod_def)
  then show ?thesis
  proof cases
    case date
    from toordinal_mono [OF a b date] have "1 \<le> toordinal b - toordinal a" by simp
    then have "86400 \<le> (toordinal b - toordinal a) * 86400" by simp
    with ra rb show ?thesis unfolding ts by linarith
  next
    case tod
    have eq: "toordinal b = toordinal a" using tod(1-3) by (simp add: toordinal_def)
    from a b have "0 \<le> minute a" "minute a \<le> 59" "0 \<le> second a" "second a \<le> 59"
      "0 \<le> minute b" "minute b \<le> 59" "0 \<le> second b" "second b \<le> 59" by simp_all
    with tod(4) have "sa < sb" unfolding sa_def sb_def by (auto simp: less_prod_def)
    then show ?thesis unfolding ts eq by simp
  qed
qed

declare valid_datetime.simps [simp del]

section \<open>Properties of \<open>calculate_candles_between\<close>\<close>

lemma make_datetime_valid: "make_datetime y m d h mi s = Inr r \<Longrightarrow> valid_datetime r"
  by (auto simp: make_datetime_def Let_def split: if_splits)

lemma make_datetime_naive:
  "make_datetime y m d h mi s = Inr r \<Longrightarrow> microsecond r = 0 \<and> utcoffset r = None"
  by (auto simp: make_datetime_def Let_def split: if_splits)

lemma make_datetime_error: "make_datetime y m d h mi s = Inl e \<Longrightarrow> e = ValueError"
  by (auto simp: make_datetime_def Let_def split: if_splits)

lemma strptime_valid: "strptime s f = Inr d \<Longrightarrow> valid_datetime d"
  by (cases f)
     (auto simp: strptime_date_def strptime_datetime_def
           split: option.splits prod.splits if_splits dest: make_datetime_valid)

lemma strptime_naive: "strptime s f = Inr d \<Longrightarrow> microsecond d = 0 \<and> utcoffset d = None"
  by (cases f)
     (auto simp: strptime_date_def strptime_datetime_def
           split: option.splits prod.splits if_splits dest: make_datetime_naive)

lemma strptime_error: "strptime s f = Inl e \<Longrightarrow> e = ValueError"
  by (cases f)
     (auto simp: strptime_date_def strptime_datetime_def
           split: option.splits prod.splits if_splits dest: make_datetime_error)

lemma datetime_ge_same_offset:
  "utcoffset a = utcoffset b \<Longrightarrow> datetime_ge a b = Inr (dt_key b \<le> dt_key a)"
  by (simp add: datetime_ge_def)

lemma strptime_ge:
  assumes "strptime s1 f = Inr dt1" and "strptime s2 f = Inr dt2"
  shows "datetime_ge dt1 dt2 = Inr (dt_key dt2 \<le> dt_key dt1)"
  using strptime_naive [OF assms(1)] strptime_naive [OF assms(2)]
  by (intro datetime_ge_same_offset) simp

lemma granularity_minutes_pos: "granularity_minutes g = Some m \<Longrightarrow> 0 < m"
  by (auto split: if_splits)

lemma calculate_candles_between_ok:
  assumes p1: "strptime from_date (if CHR ''T'' \<in> set from_date then DateTimeZ else DateOnly) = Inr dt1"
    and p2: "strptime to_date (if CHR ''T'' \<in> set from_date then DateTimeZ else DateOnly) = Inr dt2"
    and lt: "dt_key dt1 < dt_key dt2"
    and g: "granularity_minutes granularity = Some m"
  shows "calculate_candles_between from_date to_date granularity
           = Inr ((total_seconds dt2 dt1 div 60) div m)"
proof -
  have us: "microsecond dt1 = microsecond dt2"
    using strptime_naive [OF p1] strptime_naive [OF p2] by simp
  have "0 < total_seconds dt2 dt1"
    using total_seconds_pos [OF strptime_valid [OF p1] strptime_valid [OF p2] us lt] .
  then have "int_div60 (total_seconds dt2 dt1) = total_seconds dt2 dt1 div 60"
    by (simp add: int_div60_def)
  moreover have "datetime_ge dt1 dt2 = Inr False"
    using strptime_ge [OF p1 p2] lt by simp
  ultimately show ?thesis
    using p1 p2 g by (simp add: calculate_candles_between_def Let_def del: granularity_minutes.simps)
qed

lemma calculate_candles_between_cases:
  assumes "calculate_candles_between a b g = r"
  shows "r = Inl ValueError
       \<or> (\<exists>dt1 dt2 m.
            strptime a (if CHR ''T'' \<in> set a then DateTimeZ else DateOnly) = Inr dt1
          \<and> strptime b (if CHR ''T'' \<in> set a then DateTimeZ else DateOnly) = Inr dt2
          \<and> dt_key dt1 < dt_key dt2 \<and> granularity_minutes g = Some m
          \<and> r = Inr (int_div60 (total_seconds dt2 dt1) div m))"
proof -
  let ?f = "if CHR ''T'' \<in> set a then DateTimeZ else DateOnly"
  show ?thesis
  proof (cases "strptime a ?f")
    case (Inl e)
    with strptime_error [OF Inl] assms show ?thesis
      by (simp add: calculate_candles_between_def Let_def)
  next
    case p1: (Inr dt1)
    show ?thesis
    proof (cases "strptime b ?f")
      case (Inl e)
      with strptime_error [OF Inl] p1 assms show ?thesis
        by (simp add: calculate_candles_between_def Let_def)
    next
      case p2: (Inr dt2)
      note ge = strptime_ge [OF p1 p2]
      show ?thesis
      proof (cases "dt_key dt2 \<le> dt_key dt1")
        case True
        with ge p1 p2 assms show ?thesis
          by (simp add: calculate_candles_between_def Let_def)
      next
        case False
        then have lt: "dt_key dt1 < dt_key dt2" by simp
        show ?thesis
        proof (cases "granularity_minutes g")
          case None
          with ge False p1 p2 assms show ?thesis
            by (simp add: calculate_candles_between_def Let_def del: granularity_minutes.simps)
        next
          case (Some m)
          with ge False p1 p2 assms
          have "r = Inr (int_div60 (total_seconds dt2 dt1) div m)"
            by (simp add: calculate_candles_between_def Let_def del: granularity_minutes.simps)
          with p1 p2 lt Some show ?thesis by blast
        qed
      qed
    qed
  qed
qed

lemma calculate_candles_between_error:
  "calculate_candles_between a b g = Inl e \<Longrightarrow> e = ValueError"
  using calculate_candles_between_cases [of a b g "Inl e"] by auto

lemma calculate_candles_between_nonneg:
  assumes "calculate_candles_between a b g = Inr n"
  shows "0 \<le> n"
proof -
  let ?f = "if CHR ''T'' \<in> set a then DateTimeZ else DateOnly"
  from calculate_candles_between_cases [OF assms]
  obtain dt1 dt2 m where p1: "strptime a ?f = Inr dt1" and p2: "strptime b ?f = Inr dt2"
    and lt: "dt_key dt1 < dt_key dt2" and g: "granularity_minutes g = Some m"
    and n: "n = int_div60 (total_seconds dt2 dt1) div m"
    by auto
  have us: "microsecond dt1 = microsecond dt2"
    using strptime_naive [OF p1] strptime_naive [OF p2] by simp
  have "0 < total_seconds dt2 dt1"
    using total_seconds_pos [OF strptime_valid [OF p1] strptime_valid [OF p2] us lt] .
  then have "0 \<le> int_div60 (total_seconds dt2 dt1)"
    by (simp add: int_div60_def)
  with granularity_minutes_pos [OF g] show ?thesis unfolding n
    by (simp add: pos_imp_zdiv_nonneg_iff)
qed

text \<open>
  Claim C2. Take two timestamps that both parse in the format chosen from the \<open>from\<close>
  value, the first earlier than the second, and a granularity with its duration in
  minutes: 1 for M1, 5 for M5, 30 for M30, 60 for H1, 120 for H2, 240 for H4, 1440 for D
  and 10080 for W. Then \<open>calculate_candles_between\<close> returns a non-negative integer:
  the whole minutes elapsed between the two instants, divided by that duration and
  rounded down. The integer arithmetic of the code agrees with the floor of the real
  quotient.
\<close>

theorem candles_between_floor:
  assumes "strptime from_date (if CHR ''T'' \<in> set from_date then DateTimeZ else DateOnly) = Inr dt1"
    and "strptime to_date (if CHR ''T'' \<in> set from_date then DateTimeZ else DateOnly) = Inr dt2"
    and "dt_key dt1 < dt_key dt2"
    and "(granularity, m) \<in> set [(''M1'', 1), (''M5'', 5), (''M30'', 30), (''H1'', 60),
                                 (''H2'', 120), (''H4'', 240), (''D'', 1440), (''W'', 10080)]"
  shows "\<exists>n. calculate_candles_between from_date to_date granularity = Inr n
           \<and> 0 \<le> n
           \<and> n = (total_seconds dt2 dt1 div 60) div m
           \<and> n = \<lfloor>real_of_int \<lfloor>real_of_int (total_seconds dt2 dt1) / 60\<rfloor> / real_of_int m\<rfloor>"
proof -
  from assms(4) have g: "granularity_minutes granularity = Some m"
    by auto
  have eq: "calculate_candles_between from_date to_date granularity
              = Inr ((total_seconds dt2 dt1 div 60) div m)"
    by (rule calculate_candles_between_ok [OF assms(1-3) g])
  have fl: "\<lfloor>real_of_int (total_seconds dt2 dt1) / 60\<rfloor> = total_seconds dt2 dt1 div 60"
    using floor_divide_of_int_eq [of "total_seconds dt2 dt1" 60, where ?'a = real] by simp
  show ?thesis
    using eq calculate_candles_between_nonneg [OF eq]
    by (simp only: fl floor_divide_of_int_eq) simp
qed

lemma example_fortnight:
  "strptime ''2020-02-20'' (if CHR ''T'' \<in> set ''2020-02-20'' then DateTimeZ else DateOnly)
     = Inr (naive 2020 2 20 0 0 0)"
  "strptime ''2020-03-05'' (if CHR ''T'' \<in> set ''2020-02-20'' then DateTimeZ else DateOnly)
     = Inr (naive 2020 3 5 0 0 0)"
  "dt_key (naive 2020 2 20 0 0 0) < dt_key (naive 2020 3 5 0 0 0)"
  "total_seconds (naive 2020 3 5 0 0 0) (naive 2020 2 20 0 0 0) div 60 = 20160"
  by code_simp+

lemma example_day:
  "strptime ''2020-01-01'' (if CHR ''T'' \<in> set ''2020-01-01'' then DateTimeZ else DateOnly)
     = Inr (naive 2020 1 1 0 0 0)"
  "strptime ''2020-01-02'' (if CHR ''T'' \<in> set ''2020-01-01'' then DateTimeZ else DateOnly)
     = Inr (naive 2020 1 2 0 0 0)"
  "dt_key (naive 2020 1 1 0 0 0) < dt_key (naive 2020 1 2 0 0 0)"
  "total_seconds (naive 2020 1 2 0 0 0) (naive 2020 1 1 0 0 0) div 60 = 1440"
  by code_simp+

lemma example_new_year:
  "strptime ''2019-12-31T23:58:30Z''
     (if CHR ''T'' \<in> set ''2019-12-31T23:58:30Z'' then DateTimeZ else DateOnly)
     = Inr (naive 2019 12 31 23 58 30)"
  "strptime ''2020-01-01T00:01:29Z''
     (if CHR ''T'' \<in> set ''2019-12-31T23:58:30Z'' then DateTimeZ else DateOnly)
     = Inr (naive 2020 1 1 0 1 29)"
  "dt_key (naive 2019 12 31 23 58 30) < dt_key (naive 2020 1 1 0 1 29)"
  "total_seconds (naive 2020 1 1 0 1 29) (naive 2019 12 31 23 58 30) div 60 = 2"
  by code_simp+

text \<open>
  The example of the specification, one day of hourly candles; the fourteen days from
  20 February to 5 March of a leap year (20160 minutes) at each of the eight
  granularities; and 179 seconds across the turn of a year, which are two whole
  minutes.
\<close>

theorem candles_between_floor_witness:
  "calculate_candles_between ''2020-01-01'' ''2020-01-02'' ''H1'' = Inr 24
   \<and> calculate_candles_between ''2020-02-20'' ''2020-03-05'' ''M1'' = Inr 20160
   \<and> calculate_candles_between ''2020-02-20'' ''2020-03-05'' ''M5'' = Inr 4032
   \<and> calculate_candles_between ''2020-02-20'' ''2020-03-05'' ''M30'' = Inr 672
   \<and> calculate_candles_between ''2020-02-20'' ''2020-03-05'' ''H1'' = Inr 336
   \<and> calculate_candles_between ''2020-02-20'' ''2020-03-05'' ''H2'' = Inr 168
   \<and> calculate_candles_between ''2020-02-20'' ''2020-03-05'' ''H4'' = Inr 84
   \<and> calculate_candles_between ''2020-02-20'' ''2020-03-05'' ''D'' = Inr 14
   \<and> calculate_candles_between ''2020-02-20'' ''2020-03-05'' ''W'' = Inr 2
   \<and> calculate_candles_between ''2019-12-31T23:58:30Z'' ''2020-01-01T00:01:29Z'' ''M1'' = Inr 2"
proof -
  note day = candles_between_floor [OF example_day(1-3)]
  note two_weeks = candles_between_floor [OF example_fortnight(1-3)]
  note new_year = candles_between_floor [OF example_new_year(1-3)]
  have 0: "calculate_candles_between ''2020-01-01'' ''2020-01-02'' ''H1'' = Inr 24"
    using day [of "''H1''" 60] by (simp add: example_day(4))
  have 1: "calculate_candles_between ''2020-02-20'' ''2020-03-05'' ''M1'' = Inr 20160"
    using two_weeks [of "''M1''" 1] by (simp add: example_fortnight(4))
  have 2: "calculate_candles_between ''2020-02-20'' ''2020-03-05'' ''M5'' = Inr 4032"
    using two_weeks [of "''M5''" 5] by (simp add: example_fortnight(4))
  have 3: "calculate_candles_between ''2020-02-20'' ''2020-03-05'' ''M30'' = Inr 672"
    using two_weeks [of "''M30''" 30] by (simp add: example_fortnight(4))
  have 4: "calculate_candles_between ''2020-02-20'' ''2020-03-05'' ''H1'' = Inr 336"
    using two_weeks [of "''H1''" 60] by (simp add: example_fortnight(4))
  have 5: "calculate_candles_between ''2020-02-20'' ''2020-03-05'' ''H2'' = Inr 168"
    using two_weeks [of "''H2''" 120] by (simp add: example_fortnight(4))
  have 6: "calculate_candles_between ''2020-02-20'' ''2020-03-05'' ''H4'' = Inr 84"
    using two_weeks [of "''H4''" 240] by (simp add: example_fortnight(4))
  have 7: "calculate_candles_between ''2020-02-20'' ''2020-03-05'' ''D'' = Inr 14"
    using two_weeks [of "''D''" 1440] by (simp add: example_fortnight(4))
  have 8: "calculate_candles_between ''2020-02-20'' ''2020-03-05'' ''W'' = Inr 2"
    using two_weeks [of "''W''" 10080] by (simp add: example_fortnight(4))
  have 9: "calculate_candles_between ''2019-12-31T23:58:30Z'' ''2020-01-01T00:01:29Z'' ''M1'' = Inr 2"
    using new_year [of "''M1''" 1] by (simp add: example_new_year(4))
  from 0 1 2 3 4 5 6 7 8 9 show ?thesis by (intro conjI)
qed

section \<open>Properties of \<open>fetch_candles\<close>\<close>

lemma requests_of_append [simp]: "requests_of (xs @ ys) = requests_of xs @ requests_of ys"
  by (induction xs rule: requests_of.induct) simp_all

lemma calls_of_append [simp]: "calls_of (xs @ ys) = calls_of xs @ calls_of ys"
  by (induction xs rule: calls_of.induct) simp_all

lemma prints_of_append [simp]: "prints_of (xs @ ys) = prints_of xs @ prints_of ys"
  by (induction xs rule: prints_of.induct) simp_all

lemma fetch_candles_dates_end:
  "fetch_candles_dates self start end_date = Inr (start', end') \<Longrightarrow> (end' = None) = (end_date = None)"
  by (auto simp: fetch_candles_dates_def Let_def split: sum.splits option.splits if_splits)

text \<open>
  Claim C9. \<open>fetch_candles\<close> checks the pair, the granularity, the dates, the price
  kind and the count, in this order; the first check that fails decides the outcome and
  no request is sent (the trace holds the call alone). A pair outside the instrument
  names raises \<open>InvalidFunctionArguments\<close> whatever the other parameters are; once the
  earlier checks pass, a count below 1 or above \<open>CANDLE_COUNT\<close> (so 0 and 4001) raises
  it too, and every count from 1 to \<open>CANDLE_COUNT\<close> is accepted: the request is sent.
\<close>

theorem fetch_candles_validation_order:
  fixes pair_name start granularity price :: string and end_date :: "string option"
    and count :: int and use_count :: bool and c :: event
  assumes "instruments self = Some names"
  defines "c \<equiv> Call (call_record pair_name start end_date granularity count price use_count)"
  shows
    "(pair_name \<notin> set names \<longrightarrow>
        fetch_candles self pair_name start end_date granularity count price use_count tr
        = (Inl (InvalidFunctionArguments ''fetch_candles'' (ArgStr pair_name)), tr @ [c]))
     \<and> (pair_name \<in> set names \<and> granularity \<notin> set granularity_list \<longrightarrow>
        fetch_candles self pair_name start end_date granularity count price use_count tr
        = (Inl (InvalidFunctionArguments ''fetch_candles'' (ArgStr granularity)), tr @ [c]))
     \<and> (pair_name \<in> set names \<and> granularity \<in> set granularity_list
          \<and> fetch_candles_dates self start end_date = Inl e \<longrightarrow>
        fetch_candles self pair_name start end_date granularity count price use_count tr
        = (Inl e, tr @ [c]))
     \<and> (pair_name \<in> set names \<and> granularity \<in> set granularity_list
          \<and> fetch_candles_dates self start end_date = Inr (start', end')
          \<and> price \<notin> set price_list \<longrightarrow>
        fetch_candles self pair_name start end_date granularity count price use_count tr
        = (Inl (InvalidFunctionArguments ''fetch_candles'' (ArgStr price)), tr @ [c]))
     \<and> (pair_name \<in> set names \<and> granularity \<in> set granularity_list
          \<and> fetch_candles_dates self start end_date = Inr (start', end')
          \<and> price \<in> set price_list \<and> (count < 1 \<or> CANDLE_COUNT < count) \<longrightarrow>
        fetch_candles self pair_name start end_date granularity count price use_count tr
        = (Inl (InvalidFunctionArguments ''fetch_candles'' (ArgInt count)), tr @ [c]))
     \<and> (pair_name \<in> set names \<and> granularity \<in> set granularity_list
          \<and> fetch_candles_dates self start end_date = Inr (start', end')
          \<and> price \<in> set price_list \<and> 1 \<le> count \<and> count \<le> CANDLE_COUNT \<longrightarrow>
        snd (fetch_candles self pair_name start end_date granularity count price use_count tr)
        = tr @ [c, Get (candles_request self pair_name granularity price start' end' count use_count)])"
  using assms(1) unfolding c_def
  by (auto simp: fetch_candles_def Let_def split: option.splits)


text \<open>
  Claim C10. Once the parameters pass validation, exactly one request is sent. It
  carries \<open>count\<close> and no \<open>to\<close> exactly when \<open>use_count\<close> is set and no end date is
  given; in every other case it carries the (possibly null) normalised end date as
  \<open>to\<close>, no \<open>count\<close>, and its parameters do not depend on the count argument.
\<close>

theorem fetch_candles_request_anchor:
  assumes "instruments self = Some names" and "pair_name \<in> set names"
    and "granularity \<in> set granularity_list"
    and "fetch_candles_dates self start end_date = Inr (start', end')"
    and "price \<in> set price_list" and "1 \<le> count" and "count \<le> CANDLE_COUNT"
  shows "\<exists>req.
           requests_of (snd (fetch_candles self pair_name start end_date granularity count price
                               use_count tr)) = requests_of tr @ [req]
         \<and> map_of (params req) ''from'' = Some (PStr start')
         \<and> (use_count \<and> end_date = None \<longrightarrow>
              map_of (params req) ''count'' = Some (PInt count) \<and> map_of (params req) ''to'' = None)
         \<and> (\<not> (use_count \<and> end_date = None) \<longrightarrow>
              map_of (params req) ''count'' = None
              \<and> map_of (params req) ''to'' = Some (case end' of None \<Rightarrow> PNone | Some e \<Rightarrow> PStr e)
              \<and> params req = request_params granularity price start' end' other_count use_count)"
proof -
  let ?req = "candles_request self pair_name granularity price start' end' count use_count"
  have tr: "snd (fetch_candles self pair_name start end_date granularity count price use_count tr)
            = tr @ [Call (call_record pair_name start end_date granularity count price use_count),
                    Get ?req]"
    using assms by (auto simp: fetch_candles_def Let_def split: option.splits)
  have e: "(end' = None) = (end_date = None)"
    by (rule fetch_candles_dates_end [OF assms(4)])
  show ?thesis
    by (rule exI [of _ ?req]) (auto simp: tr e candles_request_def request_params_def)
qed

subsection \<open>Runs of \<open>fetch_candles\<close> on the example collector\<close>

lemma example_instruments:
  "instruments (example_collector t) = Some [''EUR_USD'', ''GBP_USD'']"
  by (simp add: example_collector_def)

lemma example_dates_2020:
  "fetch_candles_dates (example_collector t) ''2020-01-01'' None = Inr (''2020-01-01T00:00:00Z'', None)"
  by code_simp

lemma example_dates_2020_end:
  "fetch_candles_dates (example_collector t) ''2020-01-01'' (Some ''2020-01-02'')
     = Inr (''2020-01-01T00:00:00Z'', Some ''2020-01-02T00:00:00Z'')"
  by code_simp

text \<open>
  Four calls on the example collector: an unknown pair with every other parameter
  invalid as well, the counts 0 and 4001, and the count 4000.
\<close>

theorem fetch_candles_validation_order_witness:
  "fetch_candles (example_collector failing_session) ''XXX_YYY'' ''not-a-date'' None ''S5'' 0 ''Q'' True []
     = (Inl (InvalidFunctionArguments ''fetch_candles'' (ArgStr ''XXX_YYY'')),
        [Call (call_record ''XXX_YYY'' ''not-a-date'' None ''S5'' 0 ''Q'' True)])
   \<and> fetch_candles (example_collector failing_session) ''EUR_USD'' ''2020-01-01'' None ''H1'' 0 ''MBA'' True []
     = (Inl (InvalidFunctionArguments ''fetch_candles'' (ArgInt 0)),
        [Call (call_record ''EUR_USD'' ''2020-01-01'' None ''H1'' 0 ''MBA'' True)])
   \<and> fetch_candles (example_collector failing_session) ''EUR_USD'' ''2020-01-01'' None ''H1'' 4001 ''MBA'' True []
     = (Inl (InvalidFunctionArguments ''fetch_candles'' (ArgInt 4001)),
        [Call (call_record ''EUR_USD'' ''2020-01-01'' None ''H1'' 4001 ''MBA'' True)])
   \<and> snd (fetch_candles (example_collector failing_session) ''EUR_USD'' ''2020-01-01'' None ''H1'' 4000 ''MBA'' True [])
     = [Call (call_record ''EUR_USD'' ''2020-01-01'' None ''H1'' 4000 ''MBA'' True),
        Get (candles_request (example_collector failing_session) ''EUR_USD'' ''H1'' ''MBA''
               ''2020-01-01T00:00:00Z'' None 4000 True)]"
proof -
  note t = fetch_candles_validation_order [OF example_instruments [of failing_session]]
  note d = example_dates_2020 [of failing_session]
  have a: "''XXX_YYY'' \<notin> set [''EUR_USD'', ''GBP_USD'']" by simp
  have b: "''EUR_USD'' \<in> set [''EUR_USD'', ''GBP_USD'']" by simp
  have g: "''H1'' \<in> set granularity_list" by (simp add: granularity_list_def)
  have p: "''MBA'' \<in> set price_list" by (simp add: price_list_def)
  have c0: "(0::int) < 1 \<or> CANDLE_COUNT < 0" by simp
  have c1: "(4001::int) < 1 \<or> CANDLE_COUNT < 4001" by (simp add: CANDLE_COUNT_def)
  have c2: "(1::int) \<le> 4000 \<and> 4000 \<le> CANDLE_COUNT" by (simp add: CANDLE_COUNT_def)
  from t [where pair_name = "''XXX_YYY''" and start = "''not-a-date''" and end_date = None
            and granularity = "''S5''" and count = 0 and price = "''Q''" and use_count = True
            and tr = "[]"] a
  have 1: "fetch_candles (example_collector failing_session) ''XXX_YYY'' ''not-a-date'' None ''S5'' 0 ''Q'' True []
     = (Inl (InvalidFunctionArguments ''fetch_candles'' (ArgStr ''XXX_YYY'')),
        [Call (call_record ''XXX_YYY'' ''not-a-date'' None ''S5'' 0 ''Q'' True)])"
    by simp
  from t [where pair_name = "''EUR_USD''" and start = "''2020-01-01''" and end_date = None
            and granularity = "''H1''" and count = 0 and price = "''MBA''" and use_count = True
            and tr = "[]" and start' = "''2020-01-01T00:00:00Z''" and end' = None] b g p d c0
  have 2: "fetch_candles (example_collector failing_session) ''EUR_USD'' ''2020-01-01'' None ''H1'' 0 ''MBA'' True []
     = (Inl (InvalidFunctionArguments ''fetch_candles'' (ArgInt 0)),
        [Call (call_record ''EUR_USD'' ''2020-01-01'' None ''H1'' 0 ''MBA'' True)])"
    by simp
  from t [where pair_name = "''EUR_USD''" and start = "''2020-01-01''" and end_date = None
            and granularity = "''H1''" and count = 4001 and price = "''MBA''" and use_count = True
            and tr = "[]" and start' = "''2020-01-01T00:00:00Z''" and end' = None] b g p d c1
  have 3: "fetch_candles (example_collector failing_session) ''EUR_USD'' ''2020-01-01'' None ''H1'' 4001 ''MBA'' True []
     = (Inl (InvalidFunctionArguments ''fetch_candles'' (ArgInt 4001)),
        [Call (call_record ''EUR_USD'' ''2020-01-01'' None ''H1'' 4001 ''MBA'' True)])"
    by simp
  from t [where pair_name = "''EUR_USD''" and start = "''2020-01-01''" and end_date = None
            and granularity = "''H1''" and count = 4000 and price = "''MBA''" and use_count = True
            and tr = "[]" and start' = "''2020-01-01T00:00:00Z''" and end' = None] b g p d c2
  have 4: "snd (fetch_candles (example_collector failing_session) ''EUR_USD'' ''2020-01-01'' None ''H1'' 4000 ''MBA'' True [])
     = [Call (call_record ''EUR_USD'' ''2020-01-01'' None ''H1'' 4000 ''MBA'' True),
        Get (candles_request (example_collector failing_session) ''EUR_USD'' ''H1'' ''MBA''
               ''2020-01-01T00:00:00Z'' None 4000 True)]"
    by simp
  from 1 2 3 4 show ?thesis by (intro conjI)
qed



text \<open>
  By count; by end date although \<open>use_count\<close> is set; and without \<open>use_count\<close> and
  without an end date, where the request carries a null \<open>to\<close>.
\<close>

theorem fetch_candles_request_anchor_witness:
  "(\<exists>req. requests_of (snd (fetch_candles (example_collector empty_series_session)
                ''EUR_USD'' ''2020-01-01'' None ''H1'' 10 ''MBA'' True [])) = [req]
         \<and> map_of (params req) ''from'' = Some (PStr ''2020-01-01T00:00:00Z'')
         \<and> map_of (params req) ''count'' = Some (PInt 10)
         \<and> map_of (params req) ''to'' = None)
   \<and> (\<exists>req. requests_of (snd (fetch_candles (example_collector empty_series_session)
                ''EUR_USD'' ''2020-01-01'' (Some ''2020-01-02'') ''H1'' 10 ''MBA'' True [])) = [req]
         \<and> map_of (params req) ''count'' = None
         \<and> map_of (params req) ''to'' = Some (PStr ''2020-01-02T00:00:00Z''))
   \<and> (\<exists>req. requests_of (snd (fetch_candles (example_collector empty_series_session)
                ''EUR_USD'' ''2020-01-01'' None ''H1'' 10 ''MBA'' False [])) = [req]
         \<and> map_of (params req) ''count'' = None
         \<and> map_of (params req) ''to'' = Some PNone)"
proof -
  have b: "''EUR_USD'' \<in> set [''EUR_USD'', ''GBP_USD'']" by simp
  have g: "''H1'' \<in> set granularity_list" by (simp add: granularity_list_def)
  have p: "''MBA'' \<in> set price_list" by (simp add: price_list_def)
  have c: "(1::int) \<le> 10" "10 \<le> CANDLE_COUNT" by (simp_all add: CANDLE_COUNT_def)
  have 1: "\<exists>req. requests_of (snd (fetch_candles (example_collector empty_series_session)
                ''EUR_USD'' ''2020-01-01'' None ''H1'' 10 ''MBA'' True [])) = [req]
         \<and> map_of (params req) ''from'' = Some (PStr ''2020-01-01T00:00:00Z'')
         \<and> map_of (params req) ''count'' = Some (PInt 10)
         \<and> map_of (params req) ''to'' = None"
    using fetch_candles_request_anchor [OF example_instruments b g example_dates_2020 p c,
            of empty_series_session True "[]"]
    by auto
  have 2: "\<exists>req. requests_of (snd (fetch_candles (example_collector empty_series_session)
                ''EUR_USD'' ''2020-01-01'' (Some ''2020-01-02'') ''H1'' 10 ''MBA'' True [])) = [req]
         \<and> map_of (params req) ''count'' = None
         \<and> map_of (params req) ''to'' = Some (PStr ''2020-01-02T00:00:00Z'')"
    using fetch_candles_request_anchor [OF example_instruments b g example_dates_2020_end p c,
            of empty_series_session True "[]"]
    by auto
  have 3: "\<exists>req. requests_of (snd (fetch_candles (example_collector empty_series_session)
                ''EUR_USD'' ''2020-01-01'' None ''H1'' 10 ''MBA'' False [])) = [req]
         \<and> map_of (params req) ''count'' = None
         \<and> map_of (params req) ''to'' = Some PNone"
    using fetch_candles_request_anchor [OF example_instruments b g example_dates_2020 p c,
            of empty_series_session False "[]"]
    by auto
  from 1 2 3 show ?thesis by (intro conjI)
qed

text \<open>
  Claim C7, evaluated on the code. With a known pair and a valid granularity, a start
  string (or an end string) that the parser rejects makes \<open>fetch_candles\<close> raise the
  parser's own \<open>ValueError\<close>: the handler of lines 125 to 129 catches \<open>TypeError\<close>
  only, which the parser raises for arguments that are not strings. No request is sent.
\<close>

theorem fetch_candles_unparsable_date:
  "fetch_candles (example_collector empty_series_session)
     ''EUR_USD'' ''not-a-date'' None ''H1'' 10 ''MBA'' False []
   = (Inl ValueError, [Call (call_record ''EUR_USD'' ''not-a-date'' None ''H1'' 10 ''MBA'' False)])
   \<and> fetch_candles (example_collector empty_series_session)
     ''EUR_USD'' ''2020-01-01'' (Some ''not-a-date'') ''H1'' 10 ''MBA'' False []
   = (Inl ValueError,
      [Call (call_record ''EUR_USD'' ''2020-01-01'' (Some ''not-a-date'') ''H1'' 10 ''MBA'' False)])"
  by code_simp

section \<open>Properties of \<open>collect_large_candle_data\<close>\<close>

lemma fetch_candles_trace:
  "fetch_candles self p s e g c pr uc tr = (r, tr') \<Longrightarrow>
     \<exists>new. tr' = tr @ new \<and> calls_of new = [call_record p s e g c pr uc]"
  by (auto simp: fetch_candles_def Let_def split: option.splits if_splits sum.splits prod.splits)

lemma get_candles_trace:
  "get_candles self pair g price n d tr = (r, tr') \<Longrightarrow>
     \<exists>new. tr' = tr @ new \<and> calls_of new = [call_record pair (strftime d) None g n price True]"
  by (auto simp: get_candles_def split: prod.splits sum.splits exn.splits
           dest!: fetch_candles_trace)

lemma collect_loop_body_trace:
  "\<exists>new. outcome_trace (collect_loop_body self pair g price to_date count from_date candles progress tr)
            = tr @ new
         \<and> calls_of new = [call_record pair (strftime from_date) None g (min count CANDLE_COUNT) price True]"
proof -
  obtain r tr2 where gc: "get_candles self pair g price (min count CANDLE_COUNT) from_date
                            (tr @ [Print (LogProgress pair progress)]) = (r, tr2)"
    by (cases "get_candles self pair g price (min count CANDLE_COUNT) from_date
                 (tr @ [Print (LogProgress pair progress)])")
  from get_candles_trace [OF gc] obtain new
    where new: "tr2 = (tr @ [Print (LogProgress pair progress)]) @ new"
      "calls_of new = [call_record pair (strftime from_date) None g (min count CANDLE_COUNT) price True]"
    by blast
  have "outcome_trace (collect_loop_body self pair g price to_date count from_date candles progress tr)
          = tr2"
    by (simp add: collect_loop_body_def Let_def gc split: sum.splits option.splits)
  with new show ?thesis
    by (intro exI [of _ "Print (LogProgress pair progress) # new"]) simp
qed

lemma collect_loop_body_count:
  "collect_loop_body self pair g price to_date count from_date candles progress tr
     = Next count' from_date' candles' progress' tr'
   \<Longrightarrow> count' = count - min count CANDLE_COUNT"
  by (auto simp: collect_loop_body_def Let_def split: prod.splits sum.splits option.splits if_splits)

lemma windows_bound:
  assumes "0 < count"
  shows "1 + (if 0 < count - min count CANDLE_COUNT
              then (count - min count CANDLE_COUNT + CANDLE_COUNT - 1) div CANDLE_COUNT else 0)
         \<le> (count + CANDLE_COUNT - 1) div CANDLE_COUNT"
  using assms unfolding CANDLE_COUNT_def by (cases "count \<le> 4000") (simp_all add: min_def)

lemma windows_bound_one:
  "0 < count \<Longrightarrow> 1 \<le> (count + CANDLE_COUNT - 1) div CANDLE_COUNT"
  unfolding CANDLE_COUNT_def by simp


lemma collect_loop_returns:
  "\<exists>r new. collect_loop self pair g price to_date count from_date candles progress tr
              = Some (r, tr @ new)
     \<and> int (length (calls_of new))
         \<le> (if 0 < count then (count + CANDLE_COUNT - 1) div CANDLE_COUNT else 0)
     \<and> (0 < count \<longrightarrow>
          (\<exists>rest. calls_of new
                  = call_record pair (strftime from_date) None g (min count CANDLE_COUNT) price True
                    # rest))"
proof (induction "nat count" arbitrary: count from_date candles progress tr rule: less_induct)
  case less
  show ?case
  proof (cases "0 < count")
    case False
    then have "collect_loop self pair g price to_date count from_date candles progress tr
                 = Some (Inr candles, tr @ [])"
      by (simp add: collect_loop.simps [of self pair g price to_date count])
    with False show ?thesis by (intro exI [of _ "Inr candles"] exI [of _ "[]"]) simp
  next
    case True
    let ?c = "call_record pair (strftime from_date) None g (min count CANDLE_COUNT) price True"
    let ?body = "collect_loop_body self pair g price to_date count from_date candles progress tr"
    obtain new1 where new1: "outcome_trace ?body = tr @ new1" "calls_of new1 = [?c]"
      using collect_loop_body_trace [of self pair g price to_date count from_date candles progress tr]
      by blast
    note one = windows_bound_one [OF True]
    show ?thesis
    proof (cases ?body)
      case (Raise e tr')
      then have "collect_loop self pair g price to_date count from_date candles progress tr
                   = Some (Inl e, tr @ new1)"
        using True new1(1) by (simp add: collect_loop.simps [of self pair g price to_date count])
      with True new1(2) one show ?thesis
        by (intro exI [of _ "Inl e"] exI [of _ new1]) simp
    next
      case (Break cs tr')
      then have "collect_loop self pair g price to_date count from_date candles progress tr
                   = Some (Inr cs, tr @ new1)"
        using True new1(1) by (simp add: collect_loop.simps [of self pair g price to_date count])
      with True new1(2) one show ?thesis
        by (intro exI [of _ "Inr cs"] exI [of _ new1]) simp
    next
      case (Next count' from_date' candles' progress' tr')
      have c': "count' = count - min count CANDLE_COUNT"
        by (rule collect_loop_body_count [OF Next])
      have tr': "tr' = tr @ new1" using Next new1(1) by simp
      have "nat count' < nat count"
        using True unfolding c' CANDLE_COUNT_def by simp
      from less [OF this, of from_date' candles' progress' tr']
      obtain r new2 where rec:
          "collect_loop self pair g price to_date count' from_date' candles' progress' tr'
             = Some (r, tr' @ new2)"
          "int (length (calls_of new2))
             \<le> (if 0 < count' then (count' + CANDLE_COUNT - 1) div CANDLE_COUNT else 0)"
        by blast
      have "collect_loop self pair g price to_date count from_date candles progress tr
              = Some (r, tr @ (new1 @ new2))"
        using True Next rec(1) tr'
        by (simp add: collect_loop.simps [of self pair g price to_date count])
      moreover have "int (length (calls_of (new1 @ new2)))
                       \<le> (count + CANDLE_COUNT - 1) div CANDLE_COUNT"
        using rec(2) windows_bound [OF True] new1(2) unfolding c' by simp
      ultimately show ?thesis
        using True new1(2) by (intro exI [of _ r] exI [of _ "new1 @ new2"]) simp
    qed
  qed
qed


lemma collect_from_count_returns:
  "\<exists>r new. collect_from_count self pair g price from_date to_date count tr = Some (r, tr @ new)
     \<and> (count \<le> CANDLE_COUNT \<longrightarrow>
          calls_of new = [call_record pair (strftime from_date) None g count price True])
     \<and> (CANDLE_COUNT < count \<longrightarrow>
          (\<exists>rest. calls_of new
                    = call_record pair (strftime from_date) None g CANDLE_COUNT price True # rest
                 \<and> int (length rest) + 1 \<le> (count + CANDLE_COUNT - 1) div CANDLE_COUNT))"
proof (cases "count \<le> CANDLE_COUNT")
  case True
  obtain r tr' where gc: "get_candles self pair g price count from_date tr = (r, tr')"
    by (cases "get_candles self pair g price count from_date tr")
  from get_candles_trace [OF gc] obtain new where new: "tr' = tr @ new"
      "calls_of new = [call_record pair (strftime from_date) None g count price True]"
    by blast
  have "\<exists>r'. collect_from_count self pair g price from_date to_date count tr = Some (r', tr')"
    using True gc by (auto simp: collect_from_count_def split: sum.splits option.splits)
  with new True show ?thesis by auto
next
  case False
  then have pos: "0 < count" unfolding CANDLE_COUNT_def by simp
  from False have m: "min count CANDLE_COUNT = CANDLE_COUNT" by simp
  from collect_loop_returns [of self pair g price to_date count from_date "[]" 0 tr] pos
  obtain r new rest where l: "collect_loop self pair g price to_date count from_date [] 0 tr
        = Some (r, tr @ new)"
      "int (length (calls_of new)) \<le> (count + CANDLE_COUNT - 1) div CANDLE_COUNT"
      "calls_of new = call_record pair (strftime from_date) None g CANDLE_COUNT price True # rest"
    unfolding m by auto
  have "\<exists>r'. collect_from_count self pair g price from_date to_date count tr = Some (r', tr @ new)"
    using False l(1) by (cases r) (simp_all add: collect_from_count_def)
  with l(2,3) False show ?thesis by auto
qed

lemma collect_returns:
  "\<exists>r. collect_large_candle_data self pair g date_from date_to price tr = Some r"
proof -
  have "\<exists>r. collect_from_count self pair g price from_date to_date count tr = Some r"
    for from_date to_date count
    using collect_from_count_returns [of self pair g price from_date to_date count tr] by blast
  then show ?thesis
    by (auto simp: collect_large_candle_data_def split: option.splits sum.splits prod.splits)
qed

text \<open>
  Claim C4, refuted. No input and no behaviour of the session keeps the loop, or
  \<open>collect_large_candle_data\<close>, from returning.
\<close>

theorem collect_never_diverges:
  "\<not> (\<exists>self pair g price to_date count from_date candles progress tr.
         collect_loop self pair g price to_date count from_date candles progress tr = None)
   \<and> \<not> (\<exists>self pair g date_from date_to price tr.
         collect_large_candle_data self pair g date_from date_to price tr = None)"
proof (intro conjI notI; elim exE)
  fix self pair g price to_date count from_date candles progress tr
  assume "collect_loop self pair g price to_date count from_date candles progress tr = None"
  with collect_loop_returns [of self pair g price to_date count from_date candles progress tr]
  show False by auto
next
  fix self pair g date_from date_to price tr
  assume "collect_large_candle_data self pair g date_from date_to price tr = None"
  with collect_returns [of self pair g date_from date_to price tr]
  show False by auto
qed

text \<open>
  Claim C4, as amended. The loop returns for every input and every session, after at
  most \<open>count\<close> divided by \<open>CANDLE_COUNT\<close>, rounded up, fetches: each pass takes
  \<open>min count CANDLE_COUNT\<close>, at least one, off the remaining count.
\<close>

theorem collect_loop_window_bound:
  "\<exists>r new. collect_loop self pair g price to_date count from_date candles progress tr
              = Some (r, tr @ new)
     \<and> int (length (calls_of new))
         \<le> (if 0 < count then (count + CANDLE_COUNT - 1) div CANDLE_COUNT else 0)"
  using collect_loop_returns [of self pair g price to_date count from_date candles progress tr]
  by blast

text \<open>
  Claim C6. Once the pair, the granularity, the two dates and the price kind pass the
  checks of \<open>collect_large_candle_data\<close>: if \<open>calculate_candles_between\<close> fails, the
  run prints one line and returns \<open>None\<close>, with no call to \<open>fetch_candles\<close>, no request
  and no exception; otherwise the run is the windowed collection for the total count
  \<open>calculate_candles_between + 1\<close>.
\<close>

theorem collect_count_or_abort:
  assumes "instruments self = Some names" and "pair \<in> set names"
    and "granularity \<in> set granularity_list"
    and "parser_parse self date_from = Inr from_date"
    and "parser_parse self date_to = Inr to_date"
    and "price \<in> set price_list"
  shows "(calculate_candles_between (strftime from_date) (strftime to_date) granularity = Inl e \<longrightarrow>
            collect_large_candle_data self pair granularity date_from date_to price tr
            = Some (Inr None, tr @ [Print LogValueError]))
       \<and> (calculate_candles_between (strftime from_date) (strftime to_date) granularity = Inr n \<longrightarrow>
            collect_large_candle_data self pair granularity date_from date_to price tr
            = collect_from_count self pair granularity price from_date to_date (n + 1) tr)"
  using assms
  by (auto simp: collect_large_candle_data_def collect_dates_def
           dest: calculate_candles_between_error)

subsection \<open>Runs of the collection on the example collector\<close>

lemma example_parse_2020_01_01:
  "parser_parse (example_collector t) ''2020-01-01''
     = Inr (naive 2020 1 1 0 0 0)"
  by code_simp

lemma example_parse_2020_01_02:
  "parser_parse (example_collector t) ''2020-01-02''
     = Inr (naive 2020 1 2 0 0 0)"
  by code_simp

lemma example_same_day:
  "calculate_candles_between
     (strftime (naive 2020 1 1 0 0 0))
     (strftime (naive 2020 1 1 0 0 0)) ''H1''
   = Inl ValueError"
  by code_simp

lemma example_one_day_M15:
  "calculate_candles_between
     (strftime (naive 2020 1 1 0 0 0))
     (strftime (naive 2020 1 2 0 0 0)) ''M15''
   = Inl ValueError"
  by code_simp

lemma example_one_day_H1:
  "calculate_candles_between
     (strftime (naive 2020 1 1 0 0 0))
     (strftime (naive 2020 1 2 0 0 0)) ''H1''
   = Inr 24"
  by code_simp

text \<open>
  An empty range and a granularity the calendar does not know (M15) both end the run
  with \<open>None\<close> and one printed line; a day of hourly candles is collected with the
  total count 25.
\<close>

theorem collect_count_or_abort_witness:
  "collect_large_candle_data (example_collector failing_session)
     ''EUR_USD'' ''H1'' ''2020-01-01'' ''2020-01-01'' ''MBA'' []
   = Some (Inr None, [Print LogValueError])
   \<and> collect_large_candle_data (example_collector failing_session)
     ''EUR_USD'' ''M15'' ''2020-01-01'' ''2020-01-02'' ''MBA'' []
   = Some (Inr None, [Print LogValueError])
   \<and> collect_large_candle_data (example_collector failing_session)
     ''EUR_USD'' ''H1'' ''2020-01-01'' ''2020-01-02'' ''MBA'' []
   = collect_from_count (example_collector failing_session) ''EUR_USD'' ''H1'' ''MBA''
       (naive 2020 1 1 0 0 0)
       (naive 2020 1 2 0 0 0) (24 + 1) []"
proof -
  have b: "''EUR_USD'' \<in> set [''EUR_USD'', ''GBP_USD'']" by simp
  have h1: "''H1'' \<in> set granularity_list" by (simp add: granularity_list_def)
  have m15: "''M15'' \<in> set granularity_list" by (simp add: granularity_list_def)
  have p: "''MBA'' \<in> set price_list" by (simp add: price_list_def)
  note i = example_instruments [of failing_session]
  note d1 = example_parse_2020_01_01 [of failing_session]
  note d2 = example_parse_2020_01_02 [of failing_session]
  from collect_count_or_abort [OF i b h1 d1 d1 p, where e = ValueError and tr = "[]"]
    example_same_day
  have 1: "collect_large_candle_data (example_collector failing_session)
     ''EUR_USD'' ''H1'' ''2020-01-01'' ''2020-01-01'' ''MBA'' []
   = Some (Inr None, [Print LogValueError])"
    by simp
  from collect_count_or_abort [OF i b m15 d1 d2 p, where e = ValueError and tr = "[]"]
    example_one_day_M15
  have 2: "collect_large_candle_data (example_collector failing_session)
     ''EUR_USD'' ''M15'' ''2020-01-01'' ''2020-01-02'' ''MBA'' []
   = Some (Inr None, [Print LogValueError])"
    by simp
  from collect_count_or_abort [OF i b h1 d1 d2 p, where n = 24 and tr = "[]"]
    example_one_day_H1
  have 3: "collect_large_candle_data (example_collector failing_session)
     ''EUR_USD'' ''H1'' ''2020-01-01'' ''2020-01-02'' ''MBA'' []
   = collect_from_count (example_collector failing_session) ''EUR_USD'' ''H1'' ''MBA''
       (naive 2020 1 1 0 0 0)
       (naive 2020 1 2 0 0 0) (24 + 1) []"
    by simp
  from 1 2 3 show ?thesis by (intro conjI)
qed

text \<open>
  Claim C3, evaluated on the code. When the fetch of a window fails, \<open>get_candles\<close>
  prints the failure and returns \<open>None\<close>, and \<open>candles.extend(None)\<close> raises
  \<open>TypeError\<close> out of \<open>collect_large_candle_data\<close>: after one fetch and one printed
  failure the run ends with an exception, in the single-window branch as in the loop,
  for a failed request as for a response without candles.
\<close>

theorem collect_failed_window_raises:
  "collect_large_candle_data (example_collector failing_session)
     ''EUR_USD'' ''H1'' ''2020-01-01'' ''2020-01-02'' ''MBA'' []
   = Some (Inl TypeError,
       [Call (call_record ''EUR_USD'' ''2020-01-01T00:00:00Z'' None ''H1'' 25 ''MBA'' True),
        Get (candles_request (example_collector failing_session) ''EUR_USD'' ''H1'' ''MBA''
               ''2020-01-01T00:00:00Z'' None 25 True),
        Print (LogRequestFailed (RequestError
          \<lparr>ok = False, body_text = ''Service Unavailable'', json_candles = None\<rparr>
          ''Service Unavailable''))])
   \<and> collect_large_candle_data (example_collector failing_session)
     ''EUR_USD'' ''M1'' ''2020-01-01'' ''2020-01-05'' ''MBA'' []
   = Some (Inl TypeError,
       [Print (LogProgress ''EUR_USD'' 0),
        Call (call_record ''EUR_USD'' ''2020-01-01T00:00:00Z'' None ''M1'' 4000 ''MBA'' True),
        Get (candles_request (example_collector failing_session) ''EUR_USD'' ''M1'' ''MBA''
               ''2020-01-01T00:00:00Z'' None 4000 True),
        Print (LogRequestFailed (RequestError
          \<lparr>ok = False, body_text = ''Service Unavailable'', json_candles = None\<rparr>
          ''Service Unavailable''))])
   \<and> collect_large_candle_data (example_collector no_candles_session)
     ''EUR_USD'' ''M1'' ''2020-01-01'' ''2020-01-05'' ''MBA'' []
   = Some (Inl TypeError,
       [Print (LogProgress ''EUR_USD'' 0),
        Call (call_record ''EUR_USD'' ''2020-01-01T00:00:00Z'' None ''M1'' 4000 ''MBA'' True),
        Get (candles_request (example_collector no_candles_session) ''EUR_USD'' ''M1'' ''MBA''
               ''2020-01-01T00:00:00Z'' None 4000 True),
        Print (LogNoCandles (NullCandles
          \<lparr>ok = True, body_text = ''{}'', json_candles = None\<rparr>))])"
  by code_simp

subsection \<open>The number of windows\<close>








section \<open>Printing a datetime and reading it back\<close>

lemma is_digit_digit_char: "0 \<le> k \<Longrightarrow> k \<le> 9 \<Longrightarrow> is_digit (digit_char k)"
  by (simp add: is_digit_def digit_char_def)

lemma digit_val_digit_char: "0 \<le> k \<Longrightarrow> k \<le> 9 \<Longrightarrow> digit_val (digit_char k) = k"
  by (simp add: digit_val_def digit_char_def)

lemma is_digit_not_separator:
  "is_digit c \<Longrightarrow> c \<noteq> CHR ''-'' \<and> c \<noteq> CHR ''T'' \<and> c \<noteq> CHR ''t'' \<and> c \<noteq> CHR '':''
     \<and> c \<noteq> CHR ''Z'' \<and> c \<noteq> CHR ''z'' \<and> c \<noteq> CHR '' ''"
  by (auto simp: is_digit_def)

lemma split_at_append:
  "list_all (\<lambda>c. \<not> sep c) xs \<Longrightarrow> sep c0 \<Longrightarrow> split_at sep (xs @ c0 # ys) = Some (xs, ys)"
  by (induction xs) simp_all

lemma pad2_digits: "0 \<le> n \<Longrightarrow> list_all is_digit (pad2 n)"
  by (simp add: pad2_def is_digit_digit_char)

lemma pad4_digits: "0 \<le> n \<Longrightarrow> list_all is_digit (pad4 n)"
  by (simp add: pad4_def is_digit_digit_char)

lemma num_pad2: "0 \<le> n \<Longrightarrow> n < 100 \<Longrightarrow> num (pad2 n) = n"
  by (simp add: num_def pad2_def digit_val_digit_char)

lemma decimal4:
  fixes n :: int
  shows "1000 * (n div 1000) + 100 * (n div 100 mod 10) + 10 * (n div 10 mod 10) + n mod 10 = n"
proof -
  define q1 r0 where "q1 = n div 10" and "r0 = n mod 10"
  define q2 r1 where "q2 = q1 div 10" and "r1 = q1 mod 10"
  define q3 r2 where "q3 = q2 div 10" and "r2 = q2 mod 10"
  have e1: "10 * q1 + r0 = n" unfolding q1_def r0_def by (rule mult_div_mod_eq)
  have e2: "10 * q2 + r1 = q1" unfolding q2_def r1_def by (rule mult_div_mod_eq)
  have e3: "10 * q3 + r2 = q2" unfolding q3_def r2_def by (rule mult_div_mod_eq)
  have a: "n div 100 = q2"
    unfolding q2_def q1_def using zdiv_zmult2_eq [of 10 n 10] by (simp only: semiring_norm)
  have b: "n div 1000 = q3"
    unfolding q3_def a [symmetric] using zdiv_zmult2_eq [of 10 n 100] by (simp only: semiring_norm)
  have c: "n div 10 = q1" by (simp only: q1_def)
  have "1000 * q3 + 100 * r2 + 10 * r1 + r0 = n"
    using e1 e2 e3 by linarith
  then show ?thesis
    unfolding a b c unfolding r2_def r1_def r0_def .
qed

lemma num_pad4:
  assumes "0 \<le> n" "n < 10000"
  shows "num (pad4 n) = n"
proof -
  have "num (pad4 n)
        = 1000 * (n div 1000) + 100 * (n div 100 mod 10) + 10 * (n div 10 mod 10) + n mod 10"
    using assms by (simp add: num_def pad4_def digit_val_digit_char)
  also have "\<dots> = n" by (rule decimal4)
  finally show ?thesis .
qed

lemma pad_no_separator:
  assumes "0 \<le> n"
  shows "list_all (\<lambda>c. c \<noteq> CHR ''-'') (pad4 n)"
    and "list_all (\<lambda>c. c \<noteq> CHR ''-'') (pad2 n)"
    and "list_all (\<lambda>c. c \<noteq> CHR ''T'' \<and> c \<noteq> CHR ''t'') (pad2 n)"
    and "list_all (\<lambda>c. c \<noteq> CHR '':'') (pad2 n)"
    and "list_all (\<lambda>c. c \<noteq> CHR ''Z'' \<and> c \<noteq> CHR ''z'') (pad2 n)"
  using pad4_digits [OF assms] pad2_digits [OF assms]
  by (auto simp: list_all_iff dest: is_digit_not_separator)

lemma field_token_pad2:
  "0 \<le> n \<Longrightarrow> n < 100 \<Longrightarrow> field_token lo hi (pad2 n) = (lo \<le> n \<and> n \<le> hi)"
  by (simp add: field_token_def num_pad2 pad2_digits) (simp add: pad2_def)

lemma year_token_pad4: "0 \<le> n \<Longrightarrow> year_token (pad4 n)"
  by (simp add: year_token_def pad4_digits) (simp add: pad4_def)

lemma day_value_pad2: "0 \<le> n \<Longrightarrow> n < 100 \<Longrightarrow> day_value (pad2 n) = n"
proof -
  assume n: "0 \<le> n" "n < 100"
  obtain a b where ab: "pad2 n = [a, b]" by (simp add: pad2_def)
  with pad2_digits [OF n(1)] have "is_digit a" by simp
  then have "a \<noteq> CHR '' ''" by (simp add: is_digit_not_separator)
  then have "day_value (pad2 n) = num (pad2 n)" by (simp add: day_value_def ab)
  with num_pad2 [OF n] show ?thesis by simp
qed

lemma days_in_month_le_31: "days_in_month y m \<le> 31"
  by (simp add: days_in_month.simps)

text \<open>
  Reading the printed form of a valid datetime gives its six fields back, without the
  microsecond and the zone, which the format does not print.
\<close>

lemma strptime_strftime:
  fixes d :: datetime
  assumes v: "valid_datetime d"
  shows "strptime_datetime (strftime d) = Inr (d\<lparr>microsecond := 0, utcoffset := None\<rparr>)"
proof -
  from v have r: "0 \<le> year d" "year d < 10000" "0 \<le> month d" "month d < 100" "1 \<le> month d"
      "month d \<le> 12" "0 \<le> day d" "1 \<le> day d" "0 \<le> hour d" "hour d < 100" "hour d \<le> 23"
      "0 \<le> minute d" "minute d < 100" "minute d \<le> 59" "0 \<le> second d" "second d < 100"
      "second d \<le> 59"
    by (simp_all add: valid_datetime.simps)
  from v have "day d \<le> days_in_month (year d) (month d)" by (simp add: valid_datetime.simps)
  with days_in_month_le_31 [of "year d" "month d"] have d31: "day d \<le> 31" "day d < 100"
    by simp_all
  have eq: "\<lparr>year = year d, month = month d, day = day d, hour = hour d,
               minute = minute d, second = second d, microsecond = 0, utcoffset = None\<rparr>
            = d\<lparr>microsecond := 0, utcoffset := None\<rparr>"
    by (cases d) simp
  have v0: "valid_datetime (d\<lparr>microsecond := 0, utcoffset := None\<rparr>)"
    using v by (simp add: valid_datetime.simps)
  have m: "make_datetime (year d) (month d) (day d) (hour d) (minute d) (second d)
             = Inr (d\<lparr>microsecond := 0, utcoffset := None\<rparr>)"
    using v0 by (simp add: make_datetime_def eq)
  show ?thesis
    using r d31 m
    by (simp add: strptime_datetime_def strftime_def split_at_append pad_no_separator
          field_token_pad2 year_token_pad4 day_value_pad2 num_pad2 num_pad4 day_token_def)
qed

lemma T_in_strftime: "CHR ''T'' \<in> set (strftime d)"
  by (simp add: strftime_def)

lemma strftime_fields:
  "strftime (d\<lparr>utcoffset := x\<rparr>) = strftime d"
  "strftime (d\<lparr>microsecond := u\<rparr>) = strftime d"
  by (simp_all add: strftime_def)

lemma instant_whole_second:
  "microsecond d = 0 \<Longrightarrow> utcoffset d = None \<or> utcoffset d = Some 0 \<Longrightarrow>
     instant (d\<lparr>microsecond := 0, utcoffset := None, utcoffset := Some 0\<rparr>) = instant d"
  by (auto simp: instant_def toordinal_def)

lemma iso_parse_result:
  assumes "iso_parse s = Inr d"
  shows "valid_datetime d \<and> microsecond d = 0 \<and> (utcoffset d = None \<or> utcoffset d = Some 0)"
proof (cases "CHR ''T'' \<in> set s")
  case True
  with assms obtain d0 where d0: "strptime s DateTimeZ = Inr d0" "d = d0\<lparr>utcoffset := Some 0\<rparr>"
    by (auto simp: iso_parse_def split: sum.splits simp del: strptime.simps)
  from strptime_valid [OF d0(1)] strptime_naive [OF d0(1)] d0(2) show ?thesis
    by (simp add: valid_datetime.simps)
next
  case False
  with assms have "strptime s DateOnly = Inr d"
    by (simp add: iso_parse_def del: strptime.simps)
  from strptime_valid [OF this] strptime_naive [OF this] show ?thesis by simp
qed

lemma iso_parse_strftime:
  assumes "valid_datetime d"
  shows "iso_parse (strftime d) = Inr (d\<lparr>microsecond := 0, utcoffset := None, utcoffset := Some 0\<rparr>)"
  using strptime_strftime [OF assms] by (simp add: iso_parse_def T_in_strftime)

lemma iso_parse_reads_back: "reads_back iso_parse s"
proof (cases "iso_parse s")
  case (Inl e)
  then show ?thesis by (simp add: reads_back_def)
next
  case (Inr d)
  note r = iso_parse_result [OF Inr]
  from r have v: "valid_datetime d" and us: "microsecond d = 0"
    and off: "utcoffset d = None \<or> utcoffset d = Some 0" by simp_all
  show ?thesis
    using Inr iso_parse_strftime [OF v] instant_whole_second [OF us off]
    by (simp add: reads_back_def strftime_fields)
qed

section \<open>Chronological order across windows\<close>

lemma candle_times_append:
  "candle_times p (xs @ ys) =
     (case candle_times p xs of
        None \<Rightarrow> None
      | Some a \<Rightarrow> (case candle_times p ys of None \<Rightarrow> None | Some b \<Rightarrow> Some (a @ b)))"
  by (induction xs) (auto split: sum.splits option.splits)

lemma candle_times_last:
  "candle_times p cs = Some ds \<Longrightarrow> cs \<noteq> [] \<Longrightarrow> ds \<noteq> [] \<and> p (time (last cs)) = Inr (last ds)"
proof (induction cs arbitrary: ds)
  case Nil
  then show ?case by simp
next
  case (Cons c cs)
  then show ?case
    by (cases cs) (auto split: sum.splits option.splits)
qed

lemma sorted_le_last:
  fixes xs :: "'a::linorder list"
  shows "sorted xs \<Longrightarrow> x \<in> set xs \<Longrightarrow> x \<le> last xs"
  by (induction xs) auto

lemma ascending_join:
  assumes "ascending_upto p xs d" and "ascending_from p d ys"
  shows "ascending p (xs @ ys)"
proof -
  from assms(1) obtain a where a: "candle_times p xs = Some a" "sorted (map instant a)"
      "\<forall>x\<in>set a. instant x \<le> instant d"
    by (auto simp: ascending_upto_def list_all_iff split: option.splits)
  from assms(2) obtain b where b: "candle_times p ys = Some b" "sorted (map instant b)"
      "\<forall>y\<in>set b. instant d \<le> instant y"
    by (auto simp: ascending_from_def list_all_iff split: option.splits)
  have "\<forall>x\<in>set a. \<forall>y\<in>set b. instant x \<le> instant y"
    using a(3) b(3) by (meson order_trans)
  with a b show ?thesis
    by (simp add: ascending_def candle_times_append sorted_append)
qed

lemma ascending_from_ascending: "ascending_from p a cs \<Longrightarrow> ascending p cs"
  by (auto simp: ascending_from_def ascending_def split: option.splits)

lemma ascending_from_earlier:
  "ascending_from p a cs \<Longrightarrow> instant d \<le> instant a \<Longrightarrow> ascending_from p d cs"
  by (auto simp: ascending_from_def list_all_iff split: option.splits)

lemma ascending_upto_empty: "ascending_upto p [] d"
  by (simp add: ascending_upto_def)

lemma ascending_upto_ascending: "ascending_upto p cs d \<Longrightarrow> ascending p cs"
  by (auto simp: ascending_upto_def ascending_def split: option.splits)

lemma ascending_upto_last:
  assumes "ascending p cs" and "cs \<noteq> []" and "p (time (last cs)) = Inr d"
  shows "ascending_upto p cs d"
proof -
  from assms(1) obtain ds where ds: "candle_times p cs = Some ds" "sorted (map instant ds)"
    by (auto simp: ascending_def split: option.splits)
  from candle_times_last [OF ds(1) assms(2)] assms(3) have l: "ds \<noteq> []" "last ds = d"
    by simp_all
  have "instant x \<le> instant d" if "x \<in> set ds" for x
  proof -
    from that l(1) have "instant x \<in> set (map instant ds)" "map instant ds \<noteq> []" by simp_all
    with ds(2) have "instant x \<le> last (map instant ds)"
      by (intro sorted_le_last)
    then show ?thesis using l by (simp add: last_map)
  qed
  with ds show ?thesis by (simp add: ascending_upto_def list_all_iff)
qed

lemma fetch_candles_Inr:
  assumes "fetch_candles self p s e g c pr uc tr = (Inr cs, tr')"
  shows "\<exists>s' e'. fetch_candles_dates self s e = Inr (s', e')
           \<and> ok (session_get self (requests_of tr) (candles_request self p g pr s' e' c uc))
           \<and> json_candles (session_get self (requests_of tr) (candles_request self p g pr s' e' c uc))
               = Some cs"
  using assms
  by (auto simp: fetch_candles_def Let_def split: option.splits if_splits sum.splits prod.splits)

lemma get_candles_Some:
  assumes "get_candles self pair g price n d tr = (Inr (Some cs), tr')"
  shows "\<exists>tr''. fetch_candles self pair (strftime d) None g n price True tr = (Inr cs, tr'')"
  using assms
  by (auto simp: get_candles_def split: prod.splits sum.splits exn.splits)

lemma from_param:
  "map_of (params (candles_request self p g pr s' e' c uc)) ''from'' = Some (PStr s')"
  by (simp add: candles_request_def request_params_def)

text \<open>
  One window: the cursor reads back, so the anchor the session sees is not before the
  cursor, and the candles of a chronological session are not before the cursor either.
\<close>

lemma window_ascending:
  assumes chrono: "chronological self"
    and stamps: "timestamps_read_back self"
    and d: "parser_parse self s0 = Inr d"
    and rb: "reads_back (parser_parse self) s0"
    and gc: "get_candles self pair g price n d tr = (Inr (Some cs), tr')"
  shows "ascending_from (parser_parse self) d cs
       \<and> list_all (\<lambda>c. reads_back (parser_parse self) (time c)) cs"
proof -
  from get_candles_Some [OF gc] obtain tr''
    where f: "fetch_candles self pair (strftime d) None g n price True tr = (Inr cs, tr'')"
    by blast
  from fetch_candles_Inr [OF f] obtain s' e'
    where dates: "fetch_candles_dates self (strftime d) None = Inr (s', e')"
      and res: "ok (session_get self (requests_of tr) (candles_request self pair g price s' e' n True))"
        "json_candles (session_get self (requests_of tr) (candles_request self pair g price s' e' n True))
           = Some cs"
    by blast
  from dates obtain d' where d': "parser_parse self (strftime d) = Inr d'" "s' = strftime d'"
    by (auto simp: fetch_candles_dates_def split: sum.splits if_splits)
  from rb d d'(1) have same: "strftime d' = strftime d" and later: "instant d \<le> instant d'"
    by (simp_all add: reads_back_def)
  have anchor: "parser_parse self s' = Inr d'"
    using d' same by simp
  from chrono from_param [of self pair g price s' e' n True] anchor res
  have "ascending_from (parser_parse self) d' cs"
    unfolding chronological_def by blast
  then have "ascending_from (parser_parse self) d cs"
    using later by (rule ascending_from_earlier)
  moreover from stamps res
  have "list_all (\<lambda>c. reads_back (parser_parse self) (time c)) cs"
    unfolding timestamps_read_back_def by blast
  ultimately show ?thesis by simp
qed

lemma collect_loop_body_ascending:
  assumes chrono: "chronological self"
    and stamps: "timestamps_read_back self"
    and d: "parser_parse self s0 = Inr from_date"
    and rb: "reads_back (parser_parse self) s0"
    and inv: "ascending_upto (parser_parse self) candles from_date"
    and rbs: "list_all (\<lambda>c. reads_back (parser_parse self) (time c)) candles"
  shows "(collect_loop_body self pair g price to_date count from_date candles progress tr
            = Break cs' tr' \<longrightarrow> ascending (parser_parse self) cs')
       \<and> (collect_loop_body self pair g price to_date count from_date candles progress tr
            = Next count' from_date' cs' progress' tr' \<longrightarrow>
            ascending_upto (parser_parse self) cs' from_date'
            \<and> list_all (\<lambda>c. reads_back (parser_parse self) (time c)) cs'
            \<and> (\<exists>s1. parser_parse self s1 = Inr from_date'
                     \<and> reads_back (parser_parse self) s1))"
proof -
  let ?tr1 = "tr @ [Print (LogProgress pair progress)]"
  let ?n = "min count CANDLE_COUNT"
  obtain r tr2 where gc: "get_candles self pair g price ?n from_date ?tr1 = (r, tr2)"
    by (cases "get_candles self pair g price ?n from_date ?tr1")
  show ?thesis
  proof (cases r)
    case (Inl e)
    with gc show ?thesis by (simp add: collect_loop_body_def Let_def)
  next
    case (Inr opt)
    show ?thesis
    proof (cases opt)
      case None
      with gc Inr show ?thesis by (simp add: collect_loop_body_def Let_def)
    next
      case (Some cs)
      with gc Inr have gc': "get_candles self pair g price ?n from_date ?tr1 = (Inr (Some cs), tr2)"
        by simp
      note w = window_ascending [OF chrono stamps d rb gc']
      have asc: "ascending (parser_parse self) (candles @ cs)"
        using ascending_join [OF inv] w by simp
      have all: "list_all (\<lambda>c. reads_back (parser_parse self) (time c)) (candles @ cs)"
        using rbs w by simp
      have upto: "ascending_upto (parser_parse self) (candles @ cs) x"
        if "candles @ cs \<noteq> []" "parser_parse self (time (last (candles @ cs))) = Inr x" for x
        using ascending_upto_last [OF asc that] .
      have cursor: "reads_back (parser_parse self) (time (last (candles @ cs)))"
        if "candles @ cs \<noteq> []"
        using all last_in_set [OF that] unfolding list_all_iff by blast
      show ?thesis
      proof (cases "candles @ cs = []")
        case True
        with gc' show ?thesis by (simp add: collect_loop_body_def Let_def)
      next
        case False
        show ?thesis
        proof (cases "parser_parse self (time (last (candles @ cs)))")
          case (Inl e)
          with gc' False show ?thesis by (simp add: collect_loop_body_def Let_def)
        next
          case p: (Inr x)
          show ?thesis
            using gc' False p asc all upto [OF False p] cursor [OF False]
            by (auto simp: collect_loop_body_def Let_def split: sum.splits if_splits)
        qed
      qed
    qed
  qed
qed

lemma collect_loop_ascending:
  assumes chrono: "chronological self"
    and stamps: "timestamps_read_back self"
  shows "parser_parse self s0 = Inr from_date
     \<Longrightarrow> reads_back (parser_parse self) s0
     \<Longrightarrow> ascending_upto (parser_parse self) candles from_date
     \<Longrightarrow> list_all (\<lambda>c. reads_back (parser_parse self) (time c)) candles
     \<Longrightarrow> collect_loop self pair g price to_date count from_date candles progress tr
           = Some (Inr cs, tr')
     \<Longrightarrow> ascending (parser_parse self) cs"
proof (induction "nat count" arbitrary: count s0 from_date candles progress tr rule: less_induct)
  case less
  note d = less.prems(1) and rb = less.prems(2) and inv = less.prems(3)
    and rbs = less.prems(4) and run = less.prems(5)
  show ?case
  proof (cases "0 < count")
    case False
    with run have "cs = candles"
      by (simp add: collect_loop.simps [of self pair g price to_date count])
    with inv show ?thesis by (simp add: ascending_upto_ascending)
  next
    case True
    let ?body = "collect_loop_body self pair g price to_date count from_date candles progress tr"
    note body = collect_loop_body_ascending [OF chrono stamps d rb inv rbs,
        of pair g price to_date count progress tr]
    show ?thesis
    proof (cases ?body)
      case (Raise e tr2)
      with run True show ?thesis
        by (simp add: collect_loop.simps [of self pair g price to_date count])
    next
      case (Break cs2 tr2)
      with run True have "cs = cs2"
        by (simp add: collect_loop.simps [of self pair g price to_date count])
      with body Break show ?thesis by simp
    next
      case (Next count' from_date' candles' progress' tr2)
      have c': "count' = count - min count CANDLE_COUNT"
        by (rule collect_loop_body_count [OF Next])
      have lt: "nat count' < nat count"
        using True unfolding c' CANDLE_COUNT_def by simp
      from body Next obtain s1 where
          inv': "ascending_upto (parser_parse self) candles' from_date'"
          and rbs': "list_all (\<lambda>c. reads_back (parser_parse self) (time c)) candles'"
          and d': "parser_parse self s1 = Inr from_date'"
          and rb': "reads_back (parser_parse self) s1"
        by blast
      have run': "collect_loop self pair g price to_date count' from_date' candles' progress' tr2
                    = Some (Inr cs, tr')"
        using run True Next
        by (simp add: collect_loop.simps [of self pair g price to_date count])
      show ?thesis by (rule less.hyps [OF lt d' rb' inv' rbs' run'])
    qed
  qed
qed

lemma collect_from_count_ascending:
  assumes chrono: "chronological self"
    and stamps: "timestamps_read_back self"
    and d: "parser_parse self s0 = Inr from_date"
    and rb: "reads_back (parser_parse self) s0"
    and run: "collect_from_count self pair g price from_date to_date count tr
                = Some (Inr (Some cs), tr')"
  shows "ascending (parser_parse self) cs"
proof (cases "count \<le> CANDLE_COUNT")
  case True
  with run have "\<exists>tr2. get_candles self pair g price count from_date tr = (Inr (Some cs), tr2)"
    by (auto simp: collect_from_count_def split: prod.splits sum.splits option.splits)
  then obtain tr2 where "get_candles self pair g price count from_date tr = (Inr (Some cs), tr2)"
    by blast
  from window_ascending [OF chrono stamps d rb this] show ?thesis
    by (blast intro: ascending_from_ascending)
next
  case False
  with run have "collect_loop self pair g price to_date count from_date [] 0 tr
                   = Some (Inr cs, tr')"
    by (auto simp: collect_from_count_def split: prod.splits sum.splits option.splits)
  from collect_loop_ascending [OF chrono stamps d rb ascending_upto_empty _ this]
  show ?thesis by simp
qed

text \<open>
  Claim C5, as amended. Let the session be chronological: every successful response is
  an ascending candle list that does not start before the start anchor of its request.
  Let moreover the start date and the timestamp of every candle of every response read
  back: printed as \<open>%Y-%m-%dT%H:%M:%SZ\<close> and parsed again, an instant not before the
  timestamp comes out, and the same printed form (whole-second timestamps in UTC do).
  Then every series that \<open>collect_large_candle_data\<close> returns is ascending from its
  first candle to its last, across every window boundary.
\<close>

theorem collect_series_ascending:
  assumes "chronological self"
    and "timestamps_read_back self"
    and "reads_back (parser_parse self) date_from"
    and "collect_large_candle_data self pair granularity date_from date_to price tr
           = Some (Inr (Some cs), tr')"
  shows "ascending (parser_parse self) cs"
proof -
  from assms(4) obtain from_date to_date n where
      d: "parser_parse self date_from = Inr from_date"
      and run: "collect_from_count self pair granularity price from_date to_date n tr
                  = Some (Inr (Some cs), tr')"
    by (auto simp: collect_large_candle_data_def collect_dates_def
             split: option.splits sum.splits prod.splits if_splits)
  show ?thesis
    by (rule collect_from_count_ascending [OF assms(1,2) d assms(3) run])
qed

lemma anchor_session_chronological: "chronological (example_collector anchor_session)"
  by (auto simp: chronological_def example_collector_def anchor_session_def ascending_from_def)

lemma example_timestamps_read_back: "timestamps_read_back (example_collector t)"
  by (simp add: timestamps_read_back_def example_collector_def iso_parse_reads_back list_all_iff)

lemma example_reads_back: "reads_back (parser_parse (example_collector t)) s"
  by (simp add: example_collector_def iso_parse_reads_back)

lemma example_two_windows:
  "collect_large_candle_data (example_collector anchor_session)
     ''EUR_USD'' ''M1'' ''2020-01-01T00:00:00Z'' ''2020-01-03T18:41:00Z'' ''MBA'' []
   = Some (Inr (Some [\<lparr>time = ''2020-01-01T00:00:00Z'', complete = True, volume = 1\<rparr>,
                     \<lparr>time = ''2020-01-01T00:00:00Z'', complete = True, volume = 1\<rparr>]),
       [Print (LogProgress ''EUR_USD'' 0),
        Call (call_record ''EUR_USD'' ''2020-01-01T00:00:00Z'' None ''M1'' 4000 ''MBA'' True),
        Get (candles_request (example_collector anchor_session) ''EUR_USD'' ''M1'' ''MBA''
               ''2020-01-01T00:00:00Z'' None 4000 True),
        Print (LogProgress ''EUR_USD'' 1),
        Call (call_record ''EUR_USD'' ''2020-01-01T00:00:00Z'' None ''M1'' 2 ''MBA'' True),
        Get (candles_request (example_collector anchor_session) ''EUR_USD'' ''M1'' ''MBA''
               ''2020-01-01T00:00:00Z'' None 2 True)])"
  by code_simp

text \<open>
  A run of two windows against the session that stamps its candle with the request's
  anchor: the second window starts at the last timestamp collected, and the series
  returned is ascending (the seam repeats a timestamp; it does not go back).
\<close>

theorem collect_series_ascending_witness:
  "collect_large_candle_data (example_collector anchor_session)
     ''EUR_USD'' ''M1'' ''2020-01-01T00:00:00Z'' ''2020-01-03T18:41:00Z'' ''MBA'' []
   = Some (Inr (Some [\<lparr>time = ''2020-01-01T00:00:00Z'', complete = True, volume = 1\<rparr>,
                     \<lparr>time = ''2020-01-01T00:00:00Z'', complete = True, volume = 1\<rparr>]),
       [Print (LogProgress ''EUR_USD'' 0),
        Call (call_record ''EUR_USD'' ''2020-01-01T00:00:00Z'' None ''M1'' 4000 ''MBA'' True),
        Get (candles_request (example_collector anchor_session) ''EUR_USD'' ''M1'' ''MBA''
               ''2020-01-01T00:00:00Z'' None 4000 True),
        Print (LogProgress ''EUR_USD'' 1),
        Call (call_record ''EUR_USD'' ''2020-01-01T00:00:00Z'' None ''M1'' 2 ''MBA'' True),
        Get (candles_request (example_collector anchor_session) ''EUR_USD'' ''M1'' ''MBA''
               ''2020-01-01T00:00:00Z'' None 2 True)])
   \<and> ascending (parser_parse (example_collector anchor_session))
       [\<lparr>time = ''2020-01-01T00:00:00Z'', complete = True, volume = 1\<rparr>,
        \<lparr>time = ''2020-01-01T00:00:00Z'', complete = True, volume = 1\<rparr>]"
  using example_two_windows
    collect_series_ascending [OF anchor_session_chronological example_timestamps_read_back
      example_reads_back example_two_windows]
  by (intro conjI)

subsection \<open>A seam that goes back\<close>

lemma fraction_anchor:
  "iso_parse_micro ''2020-01-01T00:00:00Z'' = Inr (utc 2020 1 1 0 0 0)"
  by code_simp

lemma fraction_responses:
  "ascending_from iso_parse_micro (utc 2020 1 1 0 0 0)
     [\<lparr>time = ''2020-01-01T00:00:00.900000Z'', complete = True, volume = 1\<rparr>]"
  "ascending_from iso_parse_micro (utc 2020 1 1 0 0 0)
     [\<lparr>time = ''2020-01-01T00:00:00.100000Z'', complete = True, volume = 1\<rparr>]"
  by code_simp+

lemma fraction_session_chronological: "chronological fraction_collector"
  unfolding chronological_def
proof (intro allI impI, elim conjE)
  fix sent req f a cs
  assume f: "map_of (params req) ''from'' = Some (PStr f)"
    and a: "parser_parse fraction_collector f = Inr a"
    and "ok (session_get fraction_collector sent req)"
    and cs: "json_candles (session_get fraction_collector sent req) = Some cs"
  then have f0: "f = ''2020-01-01T00:00:00Z''"
    by (auto simp: fraction_collector_def fraction_session_def split: if_splits)
  with a fraction_anchor have a0: "a = utc 2020 1 1 0 0 0"
    by (simp add: fraction_collector_def)
  from cs f f0 have "cs = [\<lparr>time = ''2020-01-01T00:00:00.900000Z'', complete = True, volume = 1\<rparr>]
      \<or> cs = [\<lparr>time = ''2020-01-01T00:00:00.100000Z'', complete = True, volume = 1\<rparr>]"
    by (auto simp: fraction_collector_def fraction_session_def split: if_splits)
  with fraction_responses a0
  show "ascending_from (parser_parse fraction_collector) a cs"
    by (auto simp: fraction_collector_def)
qed

lemma fraction_run:
  "collect_large_candle_data fraction_collector
     ''EUR_USD'' ''M1'' ''2020-01-01T00:00:00Z'' ''2020-01-05T00:00:00Z'' ''MBA'' []
   = Some (Inr (Some [\<lparr>time = ''2020-01-01T00:00:00.900000Z'', complete = True, volume = 1\<rparr>,
                     \<lparr>time = ''2020-01-01T00:00:00.100000Z'', complete = True, volume = 1\<rparr>]),
       [Print (LogProgress ''EUR_USD'' 0),
        Call (call_record ''EUR_USD'' ''2020-01-01T00:00:00Z'' None ''M1'' 4000 ''MBA'' True),
        Get (candles_request fraction_collector ''EUR_USD'' ''M1'' ''MBA''
               ''2020-01-01T00:00:00Z'' None 4000 True),
        Print (LogProgress ''EUR_USD'' 1),
        Call (call_record ''EUR_USD'' ''2020-01-01T00:00:00Z'' None ''M1'' 1761 ''MBA'' True),
        Get (candles_request fraction_collector ''EUR_USD'' ''M1'' ''MBA''
               ''2020-01-01T00:00:00Z'' None 1761 True)])"
  by code_simp

lemma fraction_series_descends:
  "\<not> ascending (parser_parse fraction_collector)
       [\<lparr>time = ''2020-01-01T00:00:00.900000Z'', complete = True, volume = 1\<rparr>,
        \<lparr>time = ''2020-01-01T00:00:00.100000Z'', complete = True, volume = 1\<rparr>]"
  by code_simp

text \<open>
  Claim C5, refuted as stated. The session below is chronological: each of its
  responses ascends and none starts before its anchor. Its first candle is stamped
  nine tenths of a second after midnight. The cursor moves there, but the next request
  is anchored at the cursor printed in whole seconds, at midnight again, and the
  second response may start one tenth of a second after midnight. The series returned
  goes back across the window boundary.
\<close>

theorem collect_series_goes_back:
  "chronological fraction_collector
   \<and> collect_large_candle_data fraction_collector
       ''EUR_USD'' ''M1'' ''2020-01-01T00:00:00Z'' ''2020-01-05T00:00:00Z'' ''MBA'' []
     = Some (Inr (Some [\<lparr>time = ''2020-01-01T00:00:00.900000Z'', complete = True, volume = 1\<rparr>,
                       \<lparr>time = ''2020-01-01T00:00:00.100000Z'', complete = True, volume = 1\<rparr>]),
         [Print (LogProgress ''EUR_USD'' 0),
          Call (call_record ''EUR_USD'' ''2020-01-01T00:00:00Z'' None ''M1'' 4000 ''MBA'' True),
          Get (candles_request fraction_collector ''EUR_USD'' ''M1'' ''MBA''
                 ''2020-01-01T00:00:00Z'' None 4000 True),
          Print (LogProgress ''EUR_USD'' 1),
          Call (call_record ''EUR_USD'' ''2020-01-01T00:00:00Z'' None ''M1'' 1761 ''MBA'' True),
          Get (candles_request fraction_collector ''EUR_USD'' ''M1'' ''MBA''
                 ''2020-01-01T00:00:00Z'' None 1761 True)])
   \<and> \<not> ascending (parser_parse fraction_collector)
         [\<lparr>time = ''2020-01-01T00:00:00.900000Z'', complete = True, volume = 1\<rparr>,
          \<lparr>time = ''2020-01-01T00:00:00.100000Z'', complete = True, volume = 1\<rparr>]"
  using fraction_session_chronological fraction_run fraction_series_descends
  by (intro conjI)

end
